theory Spec2Isabelle
  imports Main "HOL-Library.Multiset" "HOL-Library.Char_ord" "HOL-Library.List_Lexorder"
begin

section \<open>Python strings and POSIX paths used by the image service\<close>

text \<open>
  Strings are \<open>char list\<close>; everything the service formats is ASCII. Byte strings
  (the decoded image) are kept as \<open>char list\<close> too.
\<close>

type_synonym bytes = string

definition digit_char :: "nat \<Rightarrow> char" where
  "digit_char d = ''0123456789'' ! d"

text \<open>\<open>str(n)\<close> for a non-negative Python integer.\<close>

fun str_nat :: "nat \<Rightarrow> string" where
  "str_nat n = (if n < 10 then [digit_char n] else str_nat (n div 10) @ [digit_char (n mod 10)])"

declare str_nat.simps [simp del]

text \<open>The format specification \<open>{i:03d}\<close>: decimal, padded with zeros on the left to width 3.\<close>

definition format_03d :: "nat \<Rightarrow> string" where
  "format_03d i = (let s = str_nat i in replicate (3 - length s) (CHR ''0'') @ s)"

text \<open>\<open>s.split("/")\<close>.\<close>

fun split_slash :: "string \<Rightarrow> string list" where
  "split_slash [] = [[]]"
| "split_slash (c # cs) =
     (if c = CHR ''/'' then [] # split_slash cs
      else (case split_slash cs of
              [] \<Rightarrow> [[c]]
            | w # ws \<Rightarrow> (c # w) # ws))"

text \<open>\<open>"/".join(parts)\<close>.\<close>

fun join_slash :: "string list \<Rightarrow> string" where
  "join_slash [] = []"
| "join_slash [p] = p"
| "join_slash (p # q # ps) = p @ ''/'' @ join_slash (q # ps)"

text \<open>\<open>s.rsplit("/", 1)[0]\<close>: what precedes the last slash, the whole string when there is none.\<close>

definition rsplit_slash_head :: "string \<Rightarrow> string" where
  "rsplit_slash_head s =
     (if CHR ''/'' \<in> set s then rev (tl (dropWhile (\<lambda>c. c \<noteq> CHR ''/'') (rev s))) else s)"

text \<open>
  \<open>os.path.dirname\<close> (posixpath): the head up to and including the last slash, with
  trailing slashes stripped unless the head consists of slashes only.
\<close>

definition dirname :: "string \<Rightarrow> string" where
  "dirname p =
     (let head = rev (dropWhile (\<lambda>c. c \<noteq> CHR ''/'') (rev p))
      in if head \<noteq> [] \<and> \<not> list_all (\<lambda>c. c = CHR ''/'') head
         then rev (dropWhile (\<lambda>c. c = CHR ''/'') (rev head))
         else head)"

text \<open>
  \<open>pathlib.Path\<close> on POSIX: a root (\<open>""\<close>, \<open>"/"\<close> or \<open>"//"\<close>) and the list of
  components, without empty and \<open>"."\<close> components.
\<close>

record path =
  root :: string
  parts :: "string list"

definition Path :: "string \<Rightarrow> path" where
  "Path s =
     \<lparr> root = (if take 2 s = ''//'' \<and> take 3 s \<noteq> ''///'' then ''//''
               else if take 1 s = ''/'' then ''/'' else ''''),
       parts = filter (\<lambda>c. c \<noteq> '''' \<and> c \<noteq> ''.'') (split_slash s) \<rparr>"

text \<open>\<open>str(p)\<close> of a path.\<close>

definition str_path :: "path \<Rightarrow> string" where
  "str_path p = (if root p = '''' \<and> parts p = [] then ''.'' else root p @ join_slash (parts p))"

text \<open>
  \<open>p / name\<close> for a file name made by the service (\<open>image_007.png\<close>): one more
  component. The names the service builds hold no slash and are never \<open>"."\<close>.
\<close>

definition path_join :: "path \<Rightarrow> string \<Rightarrow> path" where
  "path_join p name = p \<lparr> parts := parts p @ [name] \<rparr>"

section \<open>The outside world\<close>

text \<open>
  Exceptions are values. \<open>SystemExit\<close> and \<open>KeyboardInterrupt\<close> derive from
  \<open>BaseException\<close> and not from \<open>Exception\<close>: an \<open>except Exception\<close> clause does
  not catch them. The others are subclasses of \<open>Exception\<close>.
\<close>

datatype exn =
    ValueError string
  | OSError string
  | TypeError string
  | IndexError string
  | NameError string
  | APIError string
  | SystemExit string
  | KeyboardInterrupt string

fun str_exn :: "exn \<Rightarrow> string" where
  "str_exn (ValueError m) = m"
| "str_exn (OSError m) = m"
| "str_exn (TypeError m) = m"
| "str_exn (IndexError m) = m"
| "str_exn (NameError m) = m"
| "str_exn (APIError m) = m"
| "str_exn (SystemExit m) = m"
| "str_exn (KeyboardInterrupt m) = m"

text \<open>\<open>isinstance(e, Exception)\<close>: what an \<open>except Exception\<close> clause catches.\<close>

fun is_exception :: "exn \<Rightarrow> bool" where
  "is_exception (SystemExit m) = False"
| "is_exception (KeyboardInterrupt m) = False"
| "is_exception x = True"

text \<open>
  What the service does to the outside world, in the order it does it. An
  \<open>OpenRead\<close> or \<open>OpenWrite\<close> is logged when the open succeeded (a handle
  exists); a request to the backend, a directory creation and a write are logged when
  attempted. \<open>ThreadPool c\<close> is the creation of the executor with \<open>max_workers = c\<close>,
  logged when the executor exists; \<open>Submit i\<close> is the hand-over of task \<open>i\<close> to it.
\<close>

datatype event =
    Mkdir string
  | Makedirs string
  | OpenRead string
  | OpenWrite string
  | WriteBytes string bytes
  | Close string
  | ImagesGenerate string string
  | ImagesEdit string "string list" string
  | ThreadPool int
  | Submit nat

text \<open>
  The answers of the outside world: the backend client (\<open>client.images.generate\<close>,
  \<open>client.images.edit\<close>; a response is the list of the \<open>b64_json\<close> fields of
  \<open>result.data\<close>), \<open>base64.b64decode\<close>, the file system and the clock.
  \<open>None\<close> from a file-system call means that it did not raise.
\<close>

record env =
  images_generate :: "string \<Rightarrow> string \<Rightarrow> exn + string option list"
  images_edit :: "string \<Rightarrow> string list \<Rightarrow> string \<Rightarrow> exn + string option list"
  b64decode :: "string \<Rightarrow> exn + bytes"
  makedirs :: "string \<Rightarrow> exn option"
  mkdir :: "string \<Rightarrow> exn option"
  open_rb :: "string \<Rightarrow> exn option"
  open_wb :: "string \<Rightarrow> exn option"
  write_bytes :: "string \<Rightarrow> bytes \<Rightarrow> exn option"
  path_exists :: "string \<Rightarrow> bool"
  now_strftime :: string

text \<open>
  One run of a batch: the world as the calling thread finds it, the world as the worker
  of the task submitted at position \<open>i\<close> finds it, and the order in which
  \<open>as_completed\<close> hands the futures back (positions in the task list).
\<close>

record world =
  main_env :: env
  task_env :: "nat \<Rightarrow> env"
  completion :: "nat list"

text \<open>\<open>as_completed\<close> yields every submitted future exactly once.\<close>

definition completion_order :: "nat \<Rightarrow> nat list \<Rightarrow> bool" where
  "completion_order n order \<longleftrightarrow> sort order = [0..<n]"

section \<open>services/openai_image_service.py\<close>

record service =
  max_workers :: int

text \<open>\<open>__init__\<close>: the client is the \<open>env\<close>; the worker limit is capped.\<close>

definition init_service :: "int \<Rightarrow> service" where
  "init_service mw = \<lparr> max_workers = min mw 10 \<rparr>"

definition default_model :: string where
  "default_model = ''gpt-image-1''"

datatype image_out = SavedTo string | RawBytes bytes

text \<open>Truth value of an \<open>Optional[str]\<close>: \<open>None\<close> and the empty string are false.\<close>

fun truthy :: "string option \<Rightarrow> bool" where
  "truthy None = False"
| "truthy (Some s) = (s \<noteq> [])"

text \<open>\<open>base64.b64decode(result.data[0].b64_json)\<close>.\<close>

fun decode_first :: "env \<Rightarrow> string option list \<Rightarrow> exn + bytes" where
  "decode_first e [] = Inl (IndexError ''list index out of range'')"
| "decode_first e (None # _) =
     Inl (TypeError (''argument should be a bytes-like object or ASCII string, not ''
                     @ [CHR 0x27] @ ''NoneType'' @ [CHR 0x27]))"
| "decode_first e (Some b # _) = b64decode e b"

text \<open>
  \<open>os.makedirs(os.path.dirname(output_path), exist_ok=True)\<close>, then
  \<open>with open(output_path, "wb") as f: f.write(image_bytes)\<close>. The \<open>with\<close> block
  closes the handle whether the write raised or not.
\<close>

definition save_image :: "env \<Rightarrow> string \<Rightarrow> bytes \<Rightarrow> event list \<times> exn option" where
  "save_image e output_path image_bytes =
     (case makedirs e (dirname output_path) of
        Some x \<Rightarrow> ([Makedirs (dirname output_path)], Some x)
      | None \<Rightarrow>
         (case open_wb e output_path of
            Some x \<Rightarrow> ([Makedirs (dirname output_path)], Some x)
          | None \<Rightarrow>
             ([Makedirs (dirname output_path), OpenWrite output_path,
               WriteBytes output_path image_bytes, Close output_path],
              write_bytes e output_path image_bytes)))"

text \<open>What follows the backend's answer in \<open>generate_image\<close> and \<open>edit_image\<close>.\<close>

definition decode_and_save :: "env \<Rightarrow> exn + string option list \<Rightarrow> string option
    \<Rightarrow> event list \<times> (exn + image_out)" where
  "decode_and_save e answer output_path =
     (case answer of
        Inl x \<Rightarrow> ([], Inl x)
      | Inr data \<Rightarrow>
         (case decode_first e data of
            Inl x \<Rightarrow> ([], Inl x)
          | Inr image_bytes \<Rightarrow>
             (if truthy output_path
              then (case save_image e (the output_path) image_bytes of
                      (evs, Some x) \<Rightarrow> (evs, Inl x)
                    | (evs, None) \<Rightarrow> (evs, Inr (SavedTo (the output_path))))
              else ([], Inr (RawBytes image_bytes)))))"

definition generate_image :: "env \<Rightarrow> string \<Rightarrow> string \<Rightarrow> string option
    \<Rightarrow> event list \<times> (exn + image_out)" where
  "generate_image e prompt model output_path =
     (case decode_and_save e (images_generate e model prompt) output_path of
        (evs, r) \<Rightarrow> (ImagesGenerate model prompt # evs, r))"

text \<open>
  \<open>[open(path, "rb") for path in image_paths]\<close>: the handles opened so far, and the
  exception of the first open that raised.
\<close>

fun open_all :: "env \<Rightarrow> string list \<Rightarrow> string list \<times> exn option" where
  "open_all e [] = ([], None)"
| "open_all e (p # ps) =
     (case open_rb e p of
        Some x \<Rightarrow> ([], Some x)
      | None \<Rightarrow> (case open_all e ps of (hs, r) \<Rightarrow> (p # hs, r)))"

text \<open>
  \<open>edit_image\<close>: the list comprehension that opens the files stands before the
  \<open>try\<close>; the \<open>finally\<close> clause closes the handles once the \<open>try\<close> was entered.
\<close>

definition edit_image :: "env \<Rightarrow> string \<Rightarrow> string list \<Rightarrow> string \<Rightarrow> string option
    \<Rightarrow> event list \<times> (exn + image_out)" where
  "edit_image e prompt image_paths model output_path =
     (case open_all e image_paths of
        (images, Some x) \<Rightarrow> (map OpenRead images, Inl x)
      | (images, None) \<Rightarrow>
         (case decode_and_save e (images_edit e model images prompt) output_path of
            (evs, r) \<Rightarrow>
              (map OpenRead images @ ImagesEdit model images prompt # evs @ map Close images, r)))"

text \<open>\<open>_generate_session_directory\<close>: a directory named after the clock, created at once.\<close>

definition generate_session_directory :: "env \<Rightarrow> event list \<times> (exn + path)" where
  "generate_session_directory e =
     (let session_dir = Path (''generated_images/session_'' @ now_strftime e)
      in case mkdir e (str_path session_dir) of
           Some x \<Rightarrow> ([Mkdir (str_path session_dir)], Inl x)
         | None \<Rightarrow> ([Mkdir (str_path session_dir)], Inr session_dir))"

text \<open>
  The first two statements of both bulk functions:
  \<open>session_dir = output_dir if output_dir else self._generate_session_directory()\<close>
  (a \<open>Path\<close> object is always true) and \<open>session_dir.mkdir(parents=True, exist_ok=True)\<close>.
\<close>

definition resolve_session_dir :: "env \<Rightarrow> path option \<Rightarrow> event list \<times> (exn + path)" where
  "resolve_session_dir e output_dir =
     (case (case output_dir of
              Some d \<Rightarrow> ([], Inr d)
            | None \<Rightarrow> generate_session_directory e) of
        (evs, Inl x) \<Rightarrow> (evs, Inl x)
      | (evs, Inr session_dir) \<Rightarrow>
         (case mkdir e (str_path session_dir) of
            Some x \<Rightarrow> (evs @ [Mkdir (str_path session_dir)], Inl x)
          | None \<Rightarrow> (evs @ [Mkdir (str_path session_dir)], Inr session_dir)))"

text \<open>The result dictionary of one task.\<close>

record task_result =
  index :: nat
  success :: bool
  output_path :: "string option"
  error :: "string option"

text \<open>
  \<open>_worker_generate_image\<close>, with \<open>args = (prompt, model, index, output_path)\<close>. The
  \<open>except Exception\<close> clause turns an exception of \<open>generate_image\<close> into a failed
  result when it is an \<open>Exception\<close>; any other leaves the worker.
\<close>

fun worker_generate_image :: "env \<Rightarrow> string \<times> string \<times> nat \<times> string
    \<Rightarrow> event list \<times> (exn + task_result)" where
  "worker_generate_image e (prompt, model, idx, out_path) =
     (case generate_image e prompt model (Some out_path) of
        (evs, Inr result) \<Rightarrow>
          (evs, Inr \<lparr> index = idx, success = True, output_path = Some out_path, error = None \<rparr>)
      | (evs, Inl x) \<Rightarrow>
          (if is_exception x
           then (evs, Inr \<lparr> index = idx, success = False, output_path = None,
                            error = Some (str_exn x) \<rparr>)
           else (evs, Inl x)))"

text \<open>
  \<open>_worker_edit_image\<close>, with \<open>args = (prompt, image_paths, index, output_path)\<close>. The
  call of \<open>edit_image\<close> passes no \<open>model\<close>, so the default of the parameter is used.
\<close>

fun worker_edit_image :: "env \<Rightarrow> string \<times> string list \<times> nat \<times> string
    \<Rightarrow> event list \<times> (exn + task_result)" where
  "worker_edit_image e (prompt, image_paths, idx, out_path) =
     (case edit_image e prompt image_paths default_model (Some out_path) of
        (evs, Inr result) \<Rightarrow>
          (evs, Inr \<lparr> index = idx, success = True, output_path = Some out_path, error = None \<rparr>)
      | (evs, Inl x) \<Rightarrow>
          (if is_exception x
           then (evs, Inr \<lparr> index = idx, success = False, output_path = None,
                            error = Some (str_exn x) \<rparr>)
           else (evs, Inl x)))"

text \<open>
  The body of the loop over \<open>as_completed\<close>: the value of \<open>future.result()\<close> is
  appended; the exception of a worker is raised again by \<open>future.result()\<close>, and the
  \<open>except Exception\<close> clause turns it into a failed result with \<open>task[2]\<close> as its
  index when it is an \<open>Exception\<close>; any other leaves the loop.
\<close>

fun collect :: "nat \<Rightarrow> exn + task_result \<Rightarrow> exn + task_result" where
  "collect task_index (Inr result) = Inr result"
| "collect task_index (Inl exc) =
     (if is_exception exc
      then Inr \<lparr> index = task_index, success = False, output_path = None,
                 error = Some (str_exn exc) \<rparr>
      else Inl exc)"

text \<open>
  The loop itself, over the futures in completion order, each with the index of its task:
  the list \<open>results\<close>, or the first exception that left the body.
\<close>

fun collect_all :: "(nat \<times> (exn + task_result)) list \<Rightarrow> exn + task_result list" where
  "collect_all [] = Inr []"
| "collect_all ((task_index, r) # rest) =
     (case collect task_index r of
        Inl exc \<Rightarrow> Inl exc
      | Inr result \<Rightarrow>
         (case collect_all rest of
            Inl exc \<Rightarrow> Inl exc
          | Inr results \<Rightarrow> Inr (result # results)))"

text \<open>
  The task tuples of the two bulk functions, from \<open>enumerate(prompts)\<close> and
  \<open>enumerate(zip(prompts, image_paths_list))\<close>.
\<close>

definition generate_tasks :: "path \<Rightarrow> string \<Rightarrow> string list
    \<Rightarrow> (string \<times> string \<times> nat \<times> string) list" where
  "generate_tasks session_dir model prompts =
     map (\<lambda>(i, prompt).
            (prompt, model, i, str_path (path_join session_dir (''image_'' @ format_03d i @ ''.png''))))
         (enumerate 0 prompts)"

definition edit_tasks :: "path \<Rightarrow> string list \<Rightarrow> string list list
    \<Rightarrow> (string \<times> string list \<times> nat \<times> string) list" where
  "edit_tasks session_dir prompts image_paths_list =
     map (\<lambda>(i, prompt, img_paths).
            (prompt, img_paths, i,
             str_path (path_join session_dir (''edited_image_'' @ format_03d i @ ''.png''))))
         (enumerate 0 (zip prompts image_paths_list))"

text \<open>
  \<open>bulk_generate_images\<close>. \<open>ThreadPoolExecutor(max_workers=self.max_workers)\<close> raises
  \<open>ValueError\<close> for a worker limit that is not positive. The tasks are submitted in
  order; the workers' events are listed task by task in completion order (their
  interleaving across threads is not modelled). An exception that leaves the collecting
  loop leaves the function, after the \<open>with\<close> block has waited for every worker.
  \<open>results.sort(key=...)\<close> is the stable \<open>sort_key\<close>.
\<close>

definition bulk_generate_images :: "service \<Rightarrow> world \<Rightarrow> string list \<Rightarrow> string \<Rightarrow> path option
    \<Rightarrow> event list \<times> (exn + task_result list)" where
  "bulk_generate_images self w prompts model output_dir =
     (case resolve_session_dir (main_env w) output_dir of
        (evs, Inl x) \<Rightarrow> (evs, Inl x)
      | (evs, Inr session_dir) \<Rightarrow>
         (let tasks = generate_tasks session_dir model prompts
          in if max_workers self \<le> 0
             then (evs, Inl (ValueError ''max_workers must be greater than 0''))
             else
               (let done = map (\<lambda>k. (fst (snd (snd (tasks ! k))),
                                      worker_generate_image (task_env w k) (tasks ! k)))
                               (completion w);
                    log = evs @ [ThreadPool (max_workers self)]
                          @ map (\<lambda>task. Submit (fst (snd (snd task)))) tasks
                          @ concat (map (\<lambda>(task_index, evs', r). evs') done)
                in case collect_all (map (\<lambda>(task_index, evs', r). (task_index, r)) done) of
                     Inl exc \<Rightarrow> (log, Inl exc)
                   | Inr results \<Rightarrow> (log, Inr (sort_key index results)))))"

text \<open>\<open>bulk_edit_images\<close>: the same, after the check of the two lengths.\<close>

definition bulk_edit_images :: "service \<Rightarrow> world \<Rightarrow> string list \<Rightarrow> string list list \<Rightarrow> string
    \<Rightarrow> path option \<Rightarrow> event list \<times> (exn + task_result list)" where
  "bulk_edit_images self w prompts image_paths_list model output_dir =
     (if length prompts \<noteq> length image_paths_list
      then ([], Inl (ValueError ''Number of prompts must match number of image path lists''))
      else
        (case resolve_session_dir (main_env w) output_dir of
           (evs, Inl x) \<Rightarrow> (evs, Inl x)
         | (evs, Inr session_dir) \<Rightarrow>
            (let tasks = edit_tasks session_dir prompts image_paths_list
             in if max_workers self \<le> 0
                then (evs, Inl (ValueError ''max_workers must be greater than 0''))
                else
                  (let done = map (\<lambda>k. (fst (snd (snd (tasks ! k))),
                                         worker_edit_image (task_env w k) (tasks ! k)))
                                  (completion w);
                       log = evs @ [ThreadPool (max_workers self)]
                             @ map (\<lambda>task. Submit (fst (snd (snd task)))) tasks
                             @ concat (map (\<lambda>(task_index, evs', r). evs') done)
                   in case collect_all (map (\<lambda>(task_index, evs', r). (task_index, r)) done) of
                        Inl exc \<Rightarrow> (log, Inl exc)
                      | Inr results \<Rightarrow> (log, Inr (sort_key index results))))))"

text \<open>
  What the collecting loop gets for the task submitted at position \<open>k\<close>: the outcome of
  its worker in its own world, passed through the body of the loop.
\<close>

definition generate_future :: "world \<Rightarrow> path \<Rightarrow> string \<Rightarrow> string list \<Rightarrow> nat
    \<Rightarrow> exn + task_result" where
  "generate_future w d model prompts k =
     collect k (snd (worker_generate_image (task_env w k) (generate_tasks d model prompts ! k)))"

definition edit_future :: "world \<Rightarrow> path \<Rightarrow> string list \<Rightarrow> string list list \<Rightarrow> nat
    \<Rightarrow> exn + task_result" where
  "edit_future w d prompts image_paths_list k =
     collect k (snd (worker_edit_image (task_env w k) (edit_tasks d prompts image_paths_list ! k)))"

text \<open>
  Reading a decimal numeral back (\<open>int(s)\<close> on a string of digits), to say which index
  a formatted number encodes.
\<close>

definition digit_value :: "char \<Rightarrow> nat" where
  "digit_value c = of_char c - 48"

definition read_nat :: "string \<Rightarrow> nat" where
  "read_nat s = foldl (\<lambda>a c. 10 * a + digit_value c) 0 s"

text \<open>
  The specification's \<open>pathFor(sessionDir, index, prefix)\<close>:
  \<open>sessionDir/{prefix}_{index:03d}.png\<close>, to be compared with the paths in the task tuples.
\<close>

definition file_name :: "string \<Rightarrow> nat \<Rightarrow> string" where
  "file_name prefix i = prefix @ ''_'' @ format_03d i @ ''.png''"

definition path_for :: "path \<Rightarrow> string \<Rightarrow> nat \<Rightarrow> string" where
  "path_for dir prefix i = str_path (path_join dir (file_name prefix i))"

text \<open>A path made by \<open>path_for\<close> is a fixed string, given by the directory, and the file name.\<close>

definition dir_prefix :: "path \<Rightarrow> string" where
  "dir_prefix dir = root dir @ (if parts dir = [] then [] else join_slash (parts dir) @ ''/'')"

text \<open>
  The directory \<open>_generate_session_directory\<close> makes, and the directory of a batch:
  the caller's when one is supplied.
\<close>

definition allocated_dir :: "env \<Rightarrow> path" where
  "allocated_dir e = Path (''generated_images/session_'' @ now_strftime e)"

definition batch_dir :: "env \<Rightarrow> path option \<Rightarrow> path" where
  "batch_dir e od = (case od of Some d \<Rightarrow> d | None \<Rightarrow> allocated_dir e)"

text \<open>The two result dictionaries a worker builds.\<close>

definition ok_result :: "nat \<Rightarrow> string \<Rightarrow> task_result" where
  "ok_result k out = \<lparr> index = k, success = True, output_path = Some out, error = None \<rparr>"

definition failed_result :: "nat \<Rightarrow> exn \<Rightarrow> task_result" where
  "failed_result k x =
     \<lparr> index = k, success = False, output_path = None, error = Some (str_exn x) \<rparr>"

text \<open>
  An outcome that an \<open>except Exception\<close> clause around the call deals with: a value, or
  an exception that is an \<open>Exception\<close>.
\<close>

definition catchable :: "exn + 'a \<Rightarrow> bool" where
  "catchable r = (case r of Inl x \<Rightarrow> is_exception x | Inr v \<Rightarrow> True)"

section \<open>The executor\<close>

text \<open>
  \<open>ThreadPoolExecutor(max_workers=cap)\<close> of the standard library, by its contract: the
  submitted calls wait in a queue in the order of submission; a waiting call is started
  only while fewer than \<open>cap\<close> calls are running; a running call finishes at any time.
  A task is in the state dispatched-but-not-completed while it is in \<open>running\<close>.
\<close>

record pool =
  queued :: "nat list"
  running :: "nat list"
  finished :: "nat list"

datatype pool_event = Start | Finish nat

text \<open>The pool after \<open>executor.submit\<close> has been called for the tasks \<open>0, ..., n-1\<close>.\<close>

definition submitted :: "nat \<Rightarrow> pool" where
  "submitted n = \<lparr> queued = [0..<n], running = [], finished = [] \<rparr>"

fun pool_step :: "int \<Rightarrow> pool \<Rightarrow> pool_event \<Rightarrow> pool option" where
  "pool_step cap s Start =
     (case queued s of
        [] \<Rightarrow> None
      | t # q \<Rightarrow>
         (if int (length (running s)) < cap
          then Some (s \<lparr> queued := q, running := running s @ [t] \<rparr>)
          else None))"
| "pool_step cap s (Finish t) =
     (if t \<in> set (running s)
      then Some (s \<lparr> running := remove1 t (running s), finished := finished s @ [t] \<rparr>)
      else None)"

fun pool_run :: "int \<Rightarrow> pool \<Rightarrow> pool_event list \<Rightarrow> pool option" where
  "pool_run cap s [] = Some s"
| "pool_run cap s (a # as) =
     (case pool_step cap s a of
        None \<Rightarrow> None
      | Some s' \<Rightarrow> pool_run cap s' as)"

section \<open>tools/image_tools.py\<close>

text \<open>\<open>image_service = OpenAIImageService()\<close>, with the default worker limit.\<close>

definition image_service :: service where
  "image_service = init_service 10"

record BulkGenerateImagesInput =
  prompts :: "string list"
  output_dir :: "string option"
  model :: string

record BulkEditImagesInput = BulkGenerateImagesInput +
  image_paths_list :: "string list list"

text \<open>
  The dictionary a bulk tool returns: either the early \<open>{"success": False, "error": ...}\<close>
  or the manifest of a batch. \<open>str(None)\<close> is \<open>"None"\<close>.
\<close>

record manifest =
  m_success :: bool
  results :: "task_result list"
  output_paths :: "string option list"
  session_dir :: "string option"
  message :: string

datatype reply = ErrorReply string | Batch manifest

fun str_opt :: "string option \<Rightarrow> string" where
  "str_opt None = ''None''"
| "str_opt (Some s) = s"

text \<open>
  The \<open>session_dir\<close> entry:
  \<open>str(output_dir_path) if output_dir_path else
   str(results[0]["output_path"]).rsplit("/", 1)[0] if results and results[0]["success"] else None\<close>.
\<close>

definition reported_session_dir :: "path option \<Rightarrow> task_result list \<Rightarrow> string option" where
  "reported_session_dir output_dir_path rs =
     (case output_dir_path of
        Some d \<Rightarrow> Some (str_path d)
      | None \<Rightarrow>
         (if rs \<noteq> [] \<and> success (hd rs)
          then Some (rsplit_slash_head (str_opt (output_path (hd rs))))
          else None))"

text \<open>\<open>Path(output_dir) if output_dir else None\<close>.\<close>

definition output_dir_path_of :: "string option \<Rightarrow> path option" where
  "output_dir_path_of od = (if truthy od then Some (Path (the od)) else None)"

definition tools_bulk_generate_images :: "world \<Rightarrow> BulkGenerateImagesInput
    \<Rightarrow> event list \<times> (exn + reply)" where
  "tools_bulk_generate_images w input_data =
     (let output_dir_path = output_dir_path_of (output_dir input_data)
      in case bulk_generate_images image_service w (prompts input_data) (model input_data)
                output_dir_path of
           (evs, Inl x) \<Rightarrow> (evs, Inl x)
         | (evs, Inr rs) \<Rightarrow>
            (let successful_paths = map output_path (filter success rs)
             in (evs, Inr (Batch
                   \<lparr> m_success = list_all success rs,
                     results = rs,
                     output_paths = successful_paths,
                     session_dir = reported_session_dir output_dir_path rs,
                     message = ''Generated '' @ str_nat (length successful_paths)
                               @ '' images out of '' @ str_nat (length (prompts input_data))
                               @ '' requested'' \<rparr>))))"

text \<open>
  The validation loop of \<open>bulk_edit_images\<close>: the first source image that does not
  exist, with the index of its prompt.
\<close>

fun first_missing :: "env \<Rightarrow> nat \<Rightarrow> string list list \<Rightarrow> (nat \<times> string) option" where
  "first_missing e i [] = None"
| "first_missing e i (paths # rest) =
     (case filter (\<lambda>p. \<not> path_exists e p) paths of
        p # _ \<Rightarrow> Some (i, p)
      | [] \<Rightarrow> first_missing e (Suc i) rest)"

definition tools_bulk_edit_images :: "world \<Rightarrow> BulkEditImagesInput
    \<Rightarrow> event list \<times> (exn + reply)" where
  "tools_bulk_edit_images w input_data =
     (let output_dir_path = output_dir_path_of (output_dir input_data)
      in case first_missing (main_env w) 0 (image_paths_list input_data) of
           Some (i, p) \<Rightarrow>
             ([], Inr (ErrorReply (''Source image not found at prompt index '' @ str_nat i
                                   @ '': '' @ p)))
         | None \<Rightarrow>
            (case bulk_edit_images image_service w (prompts input_data)
                    (image_paths_list input_data) (model input_data) output_dir_path of
               (evs, Inl x) \<Rightarrow> (evs, Inl x)
             | (evs, Inr rs) \<Rightarrow>
                (let successful_paths = map output_path (filter success rs)
                 in (evs, Inr (Batch
                       \<lparr> m_success = list_all success rs,
                         results = rs,
                         output_paths = successful_paths,
                         session_dir = reported_session_dir output_dir_path rs,
                         message = ''Edited '' @ str_nat (length successful_paths)
                                   @ '' images out of '' @ str_nat (length (prompts input_data))
                                   @ '' requested'' \<rparr>)))))"

text \<open>
  The single-image tool \<open>edit_image\<close>. Its input model and its two answers,
  \<open>{"success": False, "error": ...}\<close> and \<open>{"success": True, "output_path": ..., "message": ...}\<close>.
  Without an output path the function reaches \<open>int(time.time())\<close>; the module does not
  import \<open>time\<close>, so that is a \<open>NameError\<close>.
\<close>

record EditImageInput =
  edit_prompt :: string
  edit_image_paths :: "string list"
  edit_output_path :: "string option"
  edit_model :: string

datatype edit_reply = EditError string | Edited string string

definition tools_edit_image :: "env \<Rightarrow> EditImageInput \<Rightarrow> event list \<times> (exn + edit_reply)" where
  "tools_edit_image e input_data =
     (if \<not> truthy (edit_output_path input_data)
      then (case makedirs e ''generated_images'' of
              Some x \<Rightarrow> ([Makedirs ''generated_images''], Inl x)
            | None \<Rightarrow> ([Makedirs ''generated_images''],
                       Inl (NameError (''name '' @ [CHR 0x27] @ ''time'' @ [CHR 0x27]
                                       @ '' is not defined''))))
      else
        (case filter (\<lambda>p. \<not> path_exists e p) (edit_image_paths input_data) of
           p # _ \<Rightarrow> ([], Inr (EditError (''Source image not found: '' @ p)))
         | [] \<Rightarrow>
            (case edit_image e (edit_prompt input_data) (edit_image_paths input_data)
                    (edit_model input_data) (edit_output_path input_data) of
               (evs, Inl x) \<Rightarrow> (evs, Inl x)
             | (evs, Inr result) \<Rightarrow>
                 (evs, Inr (Edited (the (edit_output_path input_data))
                              (''Image edited and saved to ''
                               @ the (edit_output_path input_data)))))))"

text \<open>The file handles that a run leaves open: opened and not closed since.\<close>

fun handles_left :: "string list \<Rightarrow> event list \<Rightarrow> string list" where
  "handles_left hs [] = hs"
| "handles_left hs (OpenRead p # evs) = handles_left (hs @ [p]) evs"
| "handles_left hs (OpenWrite p # evs) = handles_left (hs @ [p]) evs"
| "handles_left hs (Close p # evs) = handles_left (remove1 p hs) evs"
| "handles_left hs (_ # evs) = handles_left hs evs"

section \<open>Concrete worlds\<close>

text \<open>A world in which every call succeeds, and one whose backend refuses every request.\<close>

definition ok_env :: env where
  "ok_env =
     \<lparr> images_generate = (\<lambda>m p. Inr [Some ''aGk='']),
       images_edit = (\<lambda>m hs p. Inr [Some ''aGk='']),
       b64decode = (\<lambda>s. Inr ''hi''),
       makedirs = (\<lambda>d. None),
       mkdir = (\<lambda>d. None),
       open_rb = (\<lambda>p. None),
       open_wb = (\<lambda>p. None),
       write_bytes = (\<lambda>p b. None),
       path_exists = (\<lambda>p. True),
       now_strftime = ''20240101_120000'' \<rparr>"

definition rate_limited_env :: env where
  "rate_limited_env =
     ok_env \<lparr> images_generate := (\<lambda>m p. Inl (APIError ''rate limited'')),
              images_edit := (\<lambda>m hs p. Inl (APIError ''rate limited'')) \<rparr>"

text \<open>Three tasks; the second is refused; they complete in the order 2, 0, 1.\<close>

definition demo_world :: world where
  "demo_world =
     \<lparr> main_env = ok_env,
       task_env = (\<lambda>i. if i = 1 then rate_limited_env else ok_env),
       completion = [2, 0, 1] \<rparr>"

text \<open>One task, no task, and a world in which \<open>missing.png\<close> is absent.\<close>

definition single_world :: world where
  "single_world = \<lparr> main_env = ok_env, task_env = (\<lambda>i. ok_env), completion = [0] \<rparr>"

definition idle_world :: world where
  "idle_world = \<lparr> main_env = ok_env, task_env = (\<lambda>i. ok_env), completion = [] \<rparr>"

text \<open>Twelve tasks that complete in the order of their submission.\<close>

definition busy_world :: world where
  "busy_world =
     \<lparr> main_env = ok_env, task_env = (\<lambda>i. ok_env),
       completion = [0, 1, 2, 3, 4, 5, 6, 7, 8, 9, 10, 11] \<rparr>"

definition missing_env :: env where
  "missing_env =
     ok_env \<lparr> open_rb := (\<lambda>p. if p = ''missing.png''
                               then Some (OSError ''No such file or directory: missing.png'')
                               else None),
              path_exists := (\<lambda>p. p \<noteq> ''missing.png'') \<rparr>"

text \<open>A world in which \<open>locked.png\<close> exists and cannot be opened.\<close>

definition locked_env :: env where
  "locked_env =
     ok_env \<lparr> open_rb := (\<lambda>p. if p = ''locked.png''
                               then Some (OSError ''Permission denied: locked.png'')
                               else None) \<rparr>"

text \<open>Two tasks; the second is refused; it completes first.\<close>

definition two_task_world :: world where
  "two_task_world = demo_world \<lparr> completion := [1, 0] \<rparr>"

text \<open>A world in which the request to the backend ends in \<open>SystemExit\<close>.\<close>

definition exiting_env :: env where
  "exiting_env =
     ok_env \<lparr> images_generate := (\<lambda>m p. Inl (SystemExit ''1'')),
              images_edit := (\<lambda>m hs p. Inl (SystemExit ''1'')) \<rparr>"

text \<open>Two tasks; the first succeeds and completes first, the second ends in \<open>SystemExit\<close>.\<close>

definition exiting_world :: world where
  "exiting_world =
     \<lparr> main_env = ok_env,
       task_env = (\<lambda>i. if i = 1 then exiting_env else ok_env),
       completion = [0, 1] \<rparr>"


section \<open>Results of a batch\<close>

lemma not_isl_snd: "isl (snd p) = False \<Longrightarrow> \<exists>a b. p = (a, Inr b)"
  by (cases p, cases "snd p") auto

lemma sort_completed:
  assumes ord: "completion_order n order"
    and idx: "\<And>k. k < n \<Longrightarrow> index (f k) = k"
  shows "sort_key index (map f order) = map f [0..<n]"
proof (rule sort_key_inj_key_eq)
  have m: "mset order = mset [0..<n]"
    using ord mset_sort [of "\<lambda>x. x" order] by (simp add: completion_order_def)
  then show "mset (map f order) = mset (map f [0..<n])"
    by (metis mset_map)
  from m have s: "set order = {0..<n}"
    by (metis mset_eq_setD set_upt)
  show "inj_on index (set (map f order))"
  proof (rule inj_onI)
    fix x y
    assume "x \<in> set (map f order)" "y \<in> set (map f order)" "index x = index y"
    then obtain a b where "a < n" "b < n" "x = f a" "y = f b" "index (f a) = index (f b)"
      using s by auto
    then show "x = y" using idx by metis
  qed
  have "map index (map f [0..<n]) = [0..<n]"
    by (rule nth_equalityI) (simp_all add: idx)
  then show "sorted (map index (map f [0..<n]))"
    by (metis sorted_upt)
qed

lemma length_generate_tasks: "length (generate_tasks d m ps) = length ps"
  by (simp add: generate_tasks_def)

lemma nth_generate_tasks:
  "k < length ps \<Longrightarrow> generate_tasks d m ps ! k =
     (ps ! k, m, k, str_path (path_join d (''image_'' @ format_03d k @ ''.png'')))"
  by (simp add: generate_tasks_def nth_enumerate_eq)

lemma length_edit_tasks:
  "length ps = length ips \<Longrightarrow> length (edit_tasks d ps ips) = length ps"
  by (simp add: edit_tasks_def)

lemma nth_edit_tasks:
  "k < length ps \<Longrightarrow> length ps = length ips \<Longrightarrow> edit_tasks d ps ips ! k =
     (ps ! k, ips ! k, k, str_path (path_join d (''edited_image_'' @ format_03d k @ ''.png'')))"
  by (simp add: edit_tasks_def nth_enumerate_eq)

lemma completion_order_set: "completion_order n order \<Longrightarrow> set order = {0..<n}"
  unfolding completion_order_def by (metis set_sort set_upt)

lemma collect_index: "collect k r = Inr res \<Longrightarrow> (\<And>res'. r = Inr res' \<Longrightarrow> index res' = k) \<Longrightarrow> index res = k"
  by (cases r) (auto split: if_splits)

lemma worker_generate_image_index:
  "snd (worker_generate_image e (p, m, k, out)) = Inr r \<Longrightarrow> index r = k"
  by (auto split: prod.splits sum.splits if_splits)

lemma worker_edit_image_index:
  "snd (worker_edit_image e (p, ips, k, out)) = Inr r \<Longrightarrow> index r = k"
  by (auto split: prod.splits sum.splits if_splits)

lemma index_generate_future:
  assumes "k < length ps" and "generate_future w d mdl ps k = Inr r"
  shows "index r = k"
  using assms(2) unfolding generate_future_def nth_generate_tasks [OF assms(1)]
  by (rule collect_index) (rule worker_generate_image_index)

lemma index_edit_future:
  assumes "k < length ps" and "length ps = length ips" and "edit_future w d ps ips k = Inr r"
  shows "index r = k"
  using assms(3) unfolding edit_future_def nth_edit_tasks [OF assms(1,2)]
  by (rule collect_index) (rule worker_edit_image_index)

lemma collect_all_Inr:
  "collect_all xs = Inr rs \<longleftrightarrow> map (\<lambda>(i, r). collect i r) xs = map Inr rs"
proof (induction xs arbitrary: rs)
  case Nil
  then show ?case by auto
next
  case (Cons x xs)
  obtain i r where x: "x = (i, r)" by (cases x)
  show ?case
  proof (cases "collect i r")
    case (Inl exc)
    then show ?thesis by (auto simp: x)
  next
    case (Inr res)
    show ?thesis
    proof (cases "collect_all xs")
      case (Inl exc)
      with Cons.IH have "\<And>rs'. map (\<lambda>(i, r). collect i r) xs \<noteq> map Inr rs'" by simp
      with Inl Inr show ?thesis by (auto simp: x)
    next
      case collected: (Inr rs')
      with Cons.IH [of rs'] have "map (\<lambda>(i, r). collect i r) xs = map Inr rs'" by simp
      with Inr collected show ?thesis by (auto simp: x)
    qed
  qed
qed

lemma collect_all_Inl:
  "(i, r) \<in> set xs \<Longrightarrow> isl (collect i r) \<Longrightarrow> isl (collect_all xs)"
  by (induction xs) (auto split: sum.splits)

lemma collect_raised: "collect k r = Inl x \<Longrightarrow> \<not> is_exception x"
  by (cases r) (auto split: if_splits)

lemma collect_all_raised: "collect_all xs = Inl x \<Longrightarrow> \<not> is_exception x"
proof (induction xs)
  case Nil
  then show ?case by simp
next
  case (Cons a xs)
  obtain i r where "a = (i, r)" by (cases a)
  with Cons show ?case
    by (auto split: sum.splits dest: collect_raised)
qed

text \<open>The futures of a batch as the loop meets them.\<close>

lemma generate_futures:
  assumes "completion_order (length ps) order"
  shows "map ((\<lambda>(task_index, evs', r). (task_index, r)) \<circ>
              (\<lambda>k. (fst (snd (snd (generate_tasks d mdl ps ! k))),
                    worker_generate_image (task_env w k) (generate_tasks d mdl ps ! k))))
             order
           = map (\<lambda>k. (k, snd (worker_generate_image (task_env w k) (generate_tasks d mdl ps ! k))))
               order"
  using completion_order_set [OF assms]
  by (auto simp: nth_generate_tasks split: prod.splits simp del: worker_generate_image.simps)

lemma edit_futures:
  assumes "completion_order (length ps) order" and "length ps = length ips"
  shows "map ((\<lambda>(task_index, evs', r). (task_index, r)) \<circ>
              (\<lambda>k. (fst (snd (snd (edit_tasks d ps ips ! k))),
                    worker_edit_image (task_env w k) (edit_tasks d ps ips ! k))))
             order
           = map (\<lambda>k. (k, snd (worker_edit_image (task_env w k) (edit_tasks d ps ips ! k))))
               order"
  using completion_order_set [OF assms(1)] assms(2)
  by (auto simp: nth_edit_tasks split: prod.splits simp del: worker_edit_image.simps)

lemma snd_bulk_generate_images:
  assumes ord: "completion_order (length ps) (completion w)"
    and r0: "resolve_session_dir (main_env w) od = (evs0, Inr d)"
    and pos: "0 < max_workers self"
  shows "snd (bulk_generate_images self w ps mdl od)
           = (case collect_all
                (map (\<lambda>k. (k, snd (worker_generate_image (task_env w k)
                                      (generate_tasks d mdl ps ! k)))) (completion w)) of
                Inl exc \<Rightarrow> Inl exc
              | Inr collected \<Rightarrow> Inr (sort_key index collected))"
  using r0 pos
  by (simp add: bulk_generate_images_def Let_def generate_futures [OF ord] split: sum.splits)

lemma snd_bulk_edit_images:
  assumes ord: "completion_order (length ps) (completion w)"
    and len: "length ps = length ips"
    and r0: "resolve_session_dir (main_env w) od = (evs0, Inr d)"
    and pos: "0 < max_workers self"
  shows "snd (bulk_edit_images self w ps ips mdl od)
           = (case collect_all
                (map (\<lambda>k. (k, snd (worker_edit_image (task_env w k)
                                      (edit_tasks d ps ips ! k)))) (completion w)) of
                Inl exc \<Rightarrow> Inl exc
              | Inr collected \<Rightarrow> Inr (sort_key index collected))"
  using r0 pos len
  by (simp add: bulk_edit_images_def Let_def edit_futures [OF ord len] split: sum.splits)

text \<open>When the future of every task holds a result, the batch returns them in order.\<close>

lemma bulk_generate_images_runs:
  assumes ord: "completion_order (length ps) (completion w)"
    and r0: "resolve_session_dir (main_env w) od = (evs0, Inr d)"
    and pos: "0 < max_workers self"
    and all: "\<And>k. k < length ps \<Longrightarrow> generate_future w d mdl ps k = Inr (f k)"
  shows "snd (bulk_generate_images self w ps mdl od) = Inr (map f [0..<length ps])"
proof -
  let ?xs = "map (\<lambda>k. (k, snd (worker_generate_image (task_env w k)
                                   (generate_tasks d mdl ps ! k)))) (completion w)"
  have "map (\<lambda>(i, r). collect i r) ?xs = map Inr (map f (completion w))"
    using completion_order_set [OF ord] all
    by (auto simp: generate_future_def simp del: worker_generate_image.simps)
  then have "collect_all ?xs = Inr (map f (completion w))"
    by (simp only: collect_all_Inr)
  moreover have "sort_key index (map f (completion w)) = map f [0..<length ps]"
    by (rule sort_completed [OF ord]) (rule index_generate_future [OF _ all])
  ultimately show ?thesis
    by (simp add: snd_bulk_generate_images [OF ord r0 pos])
qed

lemma bulk_edit_images_runs:
  assumes ord: "completion_order (length ps) (completion w)"
    and len: "length ps = length ips"
    and r0: "resolve_session_dir (main_env w) od = (evs0, Inr d)"
    and pos: "0 < max_workers self"
    and all: "\<And>k. k < length ps \<Longrightarrow> edit_future w d ps ips k = Inr (f k)"
  shows "snd (bulk_edit_images self w ps ips mdl od) = Inr (map f [0..<length ps])"
proof -
  let ?xs = "map (\<lambda>k. (k, snd (worker_edit_image (task_env w k)
                                   (edit_tasks d ps ips ! k)))) (completion w)"
  have "map (\<lambda>(i, r). collect i r) ?xs = map Inr (map f (completion w))"
    using completion_order_set [OF ord] all
    by (auto simp: edit_future_def simp del: worker_edit_image.simps)
  then have "collect_all ?xs = Inr (map f (completion w))"
    by (simp only: collect_all_Inr)
  moreover have "sort_key index (map f (completion w)) = map f [0..<length ps]"
    by (rule sort_completed [OF ord]) (rule index_edit_future [OF _ len all])
  ultimately show ?thesis
    by (simp add: snd_bulk_edit_images [OF ord len r0 pos])
qed

text \<open>When the future of some task holds an exception that the loop does not catch, the batch raises.\<close>

lemma bulk_generate_images_raises:
  assumes ord: "completion_order (length ps) (completion w)"
    and r0: "resolve_session_dir (main_env w) od = (evs0, Inr d)"
    and pos: "0 < max_workers self"
    and k: "k < length ps" "isl (generate_future w d mdl ps k)"
  shows "isl (snd (bulk_generate_images self w ps mdl od))"
proof -
  let ?xs = "map (\<lambda>k. (k, snd (worker_generate_image (task_env w k)
                                   (generate_tasks d mdl ps ! k)))) (completion w)"
  have "(k, snd (worker_generate_image (task_env w k) (generate_tasks d mdl ps ! k))) \<in> set ?xs"
    using completion_order_set [OF ord] k(1) by (simp add: image_iff del: worker_generate_image.simps)
  then have "isl (collect_all ?xs)"
    using k(2) unfolding generate_future_def by (rule collect_all_Inl)
  then obtain exc where "collect_all ?xs = Inl exc"
    by (cases "collect_all ?xs") simp_all
  then show ?thesis
    by (simp add: snd_bulk_generate_images [OF ord r0 pos])
qed

lemma bulk_edit_images_raises:
  assumes ord: "completion_order (length ps) (completion w)"
    and len: "length ps = length ips"
    and r0: "resolve_session_dir (main_env w) od = (evs0, Inr d)"
    and pos: "0 < max_workers self"
    and k: "k < length ps" "isl (edit_future w d ps ips k)"
  shows "isl (snd (bulk_edit_images self w ps ips mdl od))"
proof -
  let ?xs = "map (\<lambda>k. (k, snd (worker_edit_image (task_env w k)
                                   (edit_tasks d ps ips ! k)))) (completion w)"
  have "(k, snd (worker_edit_image (task_env w k) (edit_tasks d ps ips ! k))) \<in> set ?xs"
    using completion_order_set [OF ord] k(1) by (simp add: image_iff del: worker_edit_image.simps)
  then have "isl (collect_all ?xs)"
    using k(2) unfolding edit_future_def by (rule collect_all_Inl)
  then obtain exc where "collect_all ?xs = Inl exc"
    by (cases "collect_all ?xs") simp_all
  then show ?thesis
    by (simp add: snd_bulk_edit_images [OF ord len r0 pos])
qed

lemma bulk_generate_images_raised:
  assumes ord: "completion_order (length ps) (completion w)"
    and r0: "resolve_session_dir (main_env w) od = (evs0, Inr d)"
    and pos: "0 < max_workers self"
    and x: "snd (bulk_generate_images self w ps mdl od) = Inl x"
  shows "\<not> is_exception x"
  using x collect_all_raised
  by (auto simp: snd_bulk_generate_images [OF ord r0 pos] split: sum.splits)

lemma bulk_edit_images_raised:
  assumes ord: "completion_order (length ps) (completion w)"
    and len: "length ps = length ips"
    and r0: "resolve_session_dir (main_env w) od = (evs0, Inr d)"
    and pos: "0 < max_workers self"
    and x: "snd (bulk_edit_images self w ps ips mdl od) = Inl x"
  shows "\<not> is_exception x"
  using x collect_all_raised
  by (auto simp: snd_bulk_edit_images [OF ord len r0 pos] split: sum.splits)

lemma bulk_generate_images_Inr:
  assumes ord: "completion_order (length ps) (completion w)"
    and run: "bulk_generate_images self w ps mdl od = (evs, Inr rs)"
  shows "\<exists>evs0 d. resolve_session_dir (main_env w) od = (evs0, Inr d)
           \<and> 0 < max_workers self
           \<and> length rs = length ps
           \<and> (\<forall>k<length ps. generate_future w d mdl ps k = Inr (rs ! k))"
proof -
  obtain evs0 r0 where r0: "resolve_session_dir (main_env w) od = (evs0, r0)"
    by (cases "resolve_session_dir (main_env w) od")
  with run obtain d where d: "r0 = Inr d"
    by (cases r0) (simp_all add: bulk_generate_images_def)
  from run r0 d have pos: "0 < max_workers self"
    by (auto simp: bulk_generate_images_def Let_def split: if_splits)
  note r = r0 [unfolded d]
  have no: "\<not> isl (generate_future w d mdl ps k)" if "k < length ps" for k
    using bulk_generate_images_raises [OF ord r pos that, of mdl] run by auto
  define f where "f k = projr (generate_future w d mdl ps k)" for k
  have all: "generate_future w d mdl ps k = Inr (f k)" if "k < length ps" for k
    using no [OF that] by (simp add: f_def)
  from bulk_generate_images_runs [OF ord r pos all] run
  have "rs = map f [0..<length ps]" by simp
  with all have "length rs = length ps"
    and "\<forall>k<length ps. generate_future w d mdl ps k = Inr (rs ! k)"
    by simp_all
  with r pos show ?thesis by blast
qed

lemma bulk_edit_images_Inr:
  assumes ord: "completion_order (length ps) (completion w)"
    and run: "bulk_edit_images self w ps ips mdl od = (evs, Inr rs)"
  shows "\<exists>evs0 d. length ps = length ips
           \<and> resolve_session_dir (main_env w) od = (evs0, Inr d)
           \<and> 0 < max_workers self
           \<and> length rs = length ps
           \<and> (\<forall>k<length ps. edit_future w d ps ips k = Inr (rs ! k))"
proof -
  from run have len: "length ps = length ips"
    by (auto simp: bulk_edit_images_def split: if_splits)
  obtain evs0 r0 where r0: "resolve_session_dir (main_env w) od = (evs0, r0)"
    by (cases "resolve_session_dir (main_env w) od")
  with run len obtain d where d: "r0 = Inr d"
    by (cases r0) (simp_all add: bulk_edit_images_def)
  from run len r0 d have pos: "0 < max_workers self"
    by (auto simp: bulk_edit_images_def Let_def split: if_splits)
  note r = r0 [unfolded d]
  have no: "\<not> isl (edit_future w d ps ips k)" if "k < length ps" for k
    using bulk_edit_images_raises [OF ord len r pos that, of mdl] run by auto
  define f where "f k = projr (edit_future w d ps ips k)" for k
  have all: "edit_future w d ps ips k = Inr (f k)" if "k < length ps" for k
    using no [OF that] by (simp add: f_def)
  from bulk_edit_images_runs [OF ord len r pos all, of mdl] run
  have "rs = map f [0..<length ps]" by simp
  with all have "length rs = length ps"
    and "\<forall>k<length ps. edit_future w d ps ips k = Inr (rs ! k)"
    by simp_all
  with r pos len show ?thesis by blast
qed

text \<open>
  The order of completion decides neither whether the batch returns nor what it returns;
  when several workers end in exceptions that are not caught, it decides which one is raised.
\<close>

lemma bulk_generate_images_any_order:
  assumes o1: "completion_order (length ps) (completion w)"
    and o2: "completion_order (length ps) order'"
  shows "snd (bulk_generate_images self (w\<lparr>completion := order'\<rparr>) ps mdl od) = Inr rs
           \<longleftrightarrow> snd (bulk_generate_images self w ps mdl od) = Inr rs"
    and "snd (bulk_generate_images self (w\<lparr>completion := order'\<rparr>) ps mdl od) = snd (bulk_generate_images self w ps mdl od)
         \<or> (\<exists>x y. snd (bulk_generate_images self (w\<lparr>completion := order'\<rparr>) ps mdl od) = Inl x
                  \<and> snd (bulk_generate_images self w ps mdl od) = Inl y
                  \<and> \<not> is_exception x \<and> \<not> is_exception y)"
proof -
  let ?w = "w\<lparr>completion := order'\<rparr>"
  obtain evs0 r0 where r0: "resolve_session_dir (main_env w) od = (evs0, r0)"
    by (cases "resolve_session_dir (main_env w) od")
  have "(snd (bulk_generate_images self ?w ps mdl od) = Inr rs
           \<longleftrightarrow> snd (bulk_generate_images self w ps mdl od) = Inr rs)
      \<and> (snd (bulk_generate_images self ?w ps mdl od) = snd (bulk_generate_images self w ps mdl od)
           \<or> (\<exists>x y. snd (bulk_generate_images self ?w ps mdl od) = Inl x \<and> snd (bulk_generate_images self w ps mdl od) = Inl y
                    \<and> \<not> is_exception x \<and> \<not> is_exception y))"
  proof (cases r0)
    case (Inl x)
    with r0 show ?thesis by (simp add: bulk_generate_images_def)
  next
    case (Inr d)
    note r = r0 [unfolded Inr]
    have r': "resolve_session_dir (main_env ?w) od = (evs0, Inr d)"
      using r by simp
    have o': "completion_order (length ps) (completion ?w)"
      using o2 by simp
    have same: "generate_future ?w d mdl ps k = generate_future w d mdl ps k" for k
      by (simp add: generate_future_def)
    show ?thesis
    proof (cases "0 < max_workers self")
      case False
      with r show ?thesis by (simp add: bulk_generate_images_def Let_def)
    next
      case pos: True
      show ?thesis
      proof (cases "\<exists>k<length ps. isl (generate_future w d mdl ps k)")
        case True
        then obtain k where k: "k < length ps" "isl (generate_future w d mdl ps k)" by blast
        from k(2) have k': "isl (generate_future ?w d mdl ps k)" by (simp only: same)
        have "isl (snd (bulk_generate_images self w ps mdl od))"
          by (rule bulk_generate_images_raises [OF o1 r pos k])
        then obtain y where y: "snd (bulk_generate_images self w ps mdl od) = Inl y"
          by (cases "snd (bulk_generate_images self w ps mdl od)") simp_all
        have "isl (snd (bulk_generate_images self ?w ps mdl od))"
          by (rule bulk_generate_images_raises [OF o' r' pos k(1) k'])
        then obtain x where x: "snd (bulk_generate_images self ?w ps mdl od) = Inl x"
          by (cases "snd (bulk_generate_images self ?w ps mdl od)") simp_all
        from bulk_generate_images_raised [OF o1 r pos y] bulk_generate_images_raised [OF o' r' pos x]
        show ?thesis using x y by auto
      next
        case False
        define f where "f k = projr (generate_future w d mdl ps k)" for k
        have all: "generate_future w d mdl ps k = Inr (f k)" if "k < length ps" for k
          using False that by (simp add: f_def)
        have all': "generate_future ?w d mdl ps k = Inr (f k)" if "k < length ps" for k
          using all [OF that] by (simp only: same)
        have "snd (bulk_generate_images self w ps mdl od) = Inr (map f [0..<length ps])"
          by (rule bulk_generate_images_runs [OF o1 r pos all])
        moreover have "snd (bulk_generate_images self ?w ps mdl od) = Inr (map f [0..<length ps])"
          by (rule bulk_generate_images_runs [OF o' r' pos all'])
        ultimately show ?thesis by simp
      qed
    qed
  qed
  then show "snd (bulk_generate_images self ?w ps mdl od) = Inr rs
           \<longleftrightarrow> snd (bulk_generate_images self w ps mdl od) = Inr rs"
    and "snd (bulk_generate_images self ?w ps mdl od) = snd (bulk_generate_images self w ps mdl od)
         \<or> (\<exists>x y. snd (bulk_generate_images self ?w ps mdl od) = Inl x \<and> snd (bulk_generate_images self w ps mdl od) = Inl y
                  \<and> \<not> is_exception x \<and> \<not> is_exception y)"
    by blast+
qed

lemma bulk_edit_images_any_order:
  assumes o1: "completion_order (length ps) (completion w)"
    and o2: "completion_order (length ps) order'"
  shows "snd (bulk_edit_images self (w\<lparr>completion := order'\<rparr>) ps ips mdl od) = Inr rs
           \<longleftrightarrow> snd (bulk_edit_images self w ps ips mdl od) = Inr rs"
    and "snd (bulk_edit_images self (w\<lparr>completion := order'\<rparr>) ps ips mdl od) = snd (bulk_edit_images self w ps ips mdl od)
         \<or> (\<exists>x y. snd (bulk_edit_images self (w\<lparr>completion := order'\<rparr>) ps ips mdl od) = Inl x
                  \<and> snd (bulk_edit_images self w ps ips mdl od) = Inl y
                  \<and> \<not> is_exception x \<and> \<not> is_exception y)"
proof -
  let ?w = "w\<lparr>completion := order'\<rparr>"
  obtain evs0 r0 where r0: "resolve_session_dir (main_env w) od = (evs0, r0)"
    by (cases "resolve_session_dir (main_env w) od")
  have "(snd (bulk_edit_images self ?w ps ips mdl od) = Inr rs
           \<longleftrightarrow> snd (bulk_edit_images self w ps ips mdl od) = Inr rs)
      \<and> (snd (bulk_edit_images self ?w ps ips mdl od) = snd (bulk_edit_images self w ps ips mdl od)
           \<or> (\<exists>x y. snd (bulk_edit_images self ?w ps ips mdl od) = Inl x \<and> snd (bulk_edit_images self w ps ips mdl od) = Inl y
                    \<and> \<not> is_exception x \<and> \<not> is_exception y))"
  proof (cases "length ps = length ips")
    case False
    then show ?thesis by (simp add: bulk_edit_images_def)
  next
    case len: True
    show ?thesis
    proof (cases r0)
      case (Inl x)
      with r0 len show ?thesis by (simp add: bulk_edit_images_def)
    next
      case (Inr d)
      note r = r0 [unfolded Inr]
      have r': "resolve_session_dir (main_env ?w) od = (evs0, Inr d)"
        using r by simp
      have o': "completion_order (length ps) (completion ?w)"
        using o2 by simp
      have same: "edit_future ?w d ps ips k = edit_future w d ps ips k" for k
        by (simp add: edit_future_def)
      show ?thesis
      proof (cases "0 < max_workers self")
        case False
        with r len show ?thesis by (simp add: bulk_edit_images_def Let_def)
      next
        case pos: True
        show ?thesis
        proof (cases "\<exists>k<length ps. isl (edit_future w d ps ips k)")
          case True
          then obtain k where k: "k < length ps" "isl (edit_future w d ps ips k)" by blast
          from k(2) have k': "isl (edit_future ?w d ps ips k)" by (simp only: same)
          have "isl (snd (bulk_edit_images self w ps ips mdl od))"
            by (rule bulk_edit_images_raises [OF o1 len r pos k])
          then obtain y where y: "snd (bulk_edit_images self w ps ips mdl od) = Inl y"
            by (cases "snd (bulk_edit_images self w ps ips mdl od)") simp_all
          have "isl (snd (bulk_edit_images self ?w ps ips mdl od))"
            by (rule bulk_edit_images_raises [OF o' len r' pos k(1) k'])
          then obtain x where x: "snd (bulk_edit_images self ?w ps ips mdl od) = Inl x"
            by (cases "snd (bulk_edit_images self ?w ps ips mdl od)") simp_all
          from bulk_edit_images_raised [OF o1 len r pos y] bulk_edit_images_raised [OF o' len r' pos x]
          show ?thesis using x y by auto
        next
          case False
          define f where "f k = projr (edit_future w d ps ips k)" for k
          have all: "edit_future w d ps ips k = Inr (f k)" if "k < length ps" for k
            using False that by (simp add: f_def)
          have all': "edit_future ?w d ps ips k = Inr (f k)" if "k < length ps" for k
            using all [OF that] by (simp only: same)
          have "snd (bulk_edit_images self w ps ips mdl od) = Inr (map f [0..<length ps])"
            by (rule bulk_edit_images_runs [OF o1 len r pos all])
          moreover have "snd (bulk_edit_images self ?w ps ips mdl od) = Inr (map f [0..<length ps])"
            by (rule bulk_edit_images_runs [OF o' len r' pos all'])
          ultimately show ?thesis by simp
        qed
      qed
    qed
  qed
  then show "snd (bulk_edit_images self ?w ps ips mdl od) = Inr rs
           \<longleftrightarrow> snd (bulk_edit_images self w ps ips mdl od) = Inr rs"
    and "snd (bulk_edit_images self ?w ps ips mdl od) = snd (bulk_edit_images self w ps ips mdl od)
         \<or> (\<exists>x y. snd (bulk_edit_images self ?w ps ips mdl od) = Inl x \<and> snd (bulk_edit_images self w ps ips mdl od) = Inl y
                  \<and> \<not> is_exception x \<and> \<not> is_exception y)"
    by blast+
qed

lemma map_index_results:
  assumes "length rs = n" and "\<And>k. k < n \<Longrightarrow> index (rs ! k) = k"
  shows "map index rs = [0..<n]"
  using assms by (intro nth_equalityI) simp_all

text \<open>
  C1. A bulk call that returns, returns one result per prompt; the indices of the results
  are exactly \<open>0, ..., N-1\<close>, ascending; and the returned list is the same for every
  order in which the tasks complete: under another order the call returns the same list.
  The outcome of the call is the same altogether, unless it raises under both orders an
  exception of a worker that is not an \<open>Exception\<close>: which one leaves the call, when
  several workers end in one, is decided by the order.
\<close>

theorem bulk_results_in_submission_order:
  assumes "completion_order (length ps) (completion w)"
  shows "(bulk_generate_images self w ps mdl od = (evs, Inr rs) \<longrightarrow>
            length rs = length ps \<and> set (map index rs) = {0..<length ps}
            \<and> sorted (map index rs) \<and> map index rs = [0..<length ps])
       \<and> (bulk_edit_images self w ps ips mdl od = (evs', Inr rs') \<longrightarrow>
            length rs' = length ps \<and> set (map index rs') = {0..<length ps}
            \<and> sorted (map index rs') \<and> map index rs' = [0..<length ps])
       \<and> (completion_order (length ps) order' \<longrightarrow>
            (\<forall>l. snd (bulk_generate_images self (w\<lparr>completion := order'\<rparr>) ps mdl od) = Inr l
                  \<longleftrightarrow> snd (bulk_generate_images self w ps mdl od) = Inr l)
            \<and> (snd (bulk_generate_images self (w\<lparr>completion := order'\<rparr>) ps mdl od)
                  = snd (bulk_generate_images self w ps mdl od)
                \<or> (\<exists>x y. snd (bulk_generate_images self (w\<lparr>completion := order'\<rparr>) ps mdl od)
                            = Inl x
                         \<and> snd (bulk_generate_images self w ps mdl od) = Inl y
                         \<and> \<not> is_exception x \<and> \<not> is_exception y))
            \<and> (\<forall>l. snd (bulk_edit_images self (w\<lparr>completion := order'\<rparr>) ps ips mdl od) = Inr l
                  \<longleftrightarrow> snd (bulk_edit_images self w ps ips mdl od) = Inr l)
            \<and> (snd (bulk_edit_images self (w\<lparr>completion := order'\<rparr>) ps ips mdl od)
                  = snd (bulk_edit_images self w ps ips mdl od)
                \<or> (\<exists>x y. snd (bulk_edit_images self (w\<lparr>completion := order'\<rparr>) ps ips mdl od)
                            = Inl x
                         \<and> snd (bulk_edit_images self w ps ips mdl od) = Inl y
                         \<and> \<not> is_exception x \<and> \<not> is_exception y)))"
proof (intro conjI impI allI)
  assume run: "bulk_generate_images self w ps mdl od = (evs, Inr rs)"
  from bulk_generate_images_Inr [OF assms run]
  obtain d where len: "length rs = length ps"
    and all: "\<forall>k<length ps. generate_future w d mdl ps k = Inr (rs ! k)" by blast
  show "length rs = length ps" by (rule len)
  show "map index rs = [0..<length ps]"
    using all by (intro map_index_results [OF len]) (blast intro: index_generate_future)
  then show "set (map index rs) = {0..<length ps}" "sorted (map index rs)" by simp_all
next
  assume run: "bulk_edit_images self w ps ips mdl od = (evs', Inr rs')"
  from bulk_edit_images_Inr [OF assms run]
  obtain d where eq: "length ps = length ips" and len: "length rs' = length ps"
    and all: "\<forall>k<length ps. edit_future w d ps ips k = Inr (rs' ! k)" by blast
  show "length rs' = length ps" by (rule len)
  show "map index rs' = [0..<length ps]"
    using all by (intro map_index_results [OF len]) (blast intro: index_edit_future [OF _ eq])
  then show "set (map index rs') = {0..<length ps}" "sorted (map index rs')" by simp_all
next
  fix l
  assume o: "completion_order (length ps) order'"
  show "snd (bulk_generate_images self (w\<lparr>completion := order'\<rparr>) ps mdl od) = Inr l
          \<longleftrightarrow> snd (bulk_generate_images self w ps mdl od) = Inr l"
    by (rule bulk_generate_images_any_order(1) [OF assms o])
  show "snd (bulk_edit_images self (w\<lparr>completion := order'\<rparr>) ps ips mdl od) = Inr l
          \<longleftrightarrow> snd (bulk_edit_images self w ps ips mdl od) = Inr l"
    by (rule bulk_edit_images_any_order(1) [OF assms o])
next
  assume o: "completion_order (length ps) order'"
  show "snd (bulk_generate_images self (w\<lparr>completion := order'\<rparr>) ps mdl od)
          = snd (bulk_generate_images self w ps mdl od)
        \<or> (\<exists>x y. snd (bulk_generate_images self (w\<lparr>completion := order'\<rparr>) ps mdl od) = Inl x
                 \<and> snd (bulk_generate_images self w ps mdl od) = Inl y
                 \<and> \<not> is_exception x \<and> \<not> is_exception y)"
    by (rule bulk_generate_images_any_order(2) [OF assms o])
  show "snd (bulk_edit_images self (w\<lparr>completion := order'\<rparr>) ps ips mdl od)
          = snd (bulk_edit_images self w ps ips mdl od)
        \<or> (\<exists>x y. snd (bulk_edit_images self (w\<lparr>completion := order'\<rparr>) ps ips mdl od) = Inl x
                 \<and> snd (bulk_edit_images self w ps ips mdl od) = Inl y
                 \<and> \<not> is_exception x \<and> \<not> is_exception y)"
    by (rule bulk_edit_images_any_order(2) [OF assms o])
qed

theorem bulk_results_in_submission_order_witness:
  "completion_order 3 (completion demo_world) \<and> completion_order 3 [0, 1, 2]
   \<and> (\<exists>evs rs. bulk_generate_images (init_service 50) demo_world
           [''a cat meme'', ''a dog meme'', ''a fox meme''] ''gpt-image-1'' None = (evs, Inr rs)
         \<and> length rs = 3 \<and> map index rs = [0, 1, 2])
   \<and> (\<exists>evs rs. bulk_edit_images (init_service 50) demo_world
           [''a cat meme'', ''a dog meme'', ''a fox meme'']
           [[''a.png''], [], [''b.png'', ''c.png'']] ''gpt-image-1'' (Some (Path ''out''))
           = (evs, Inr rs)
         \<and> length rs = 3 \<and> map index rs = [0, 1, 2])
   \<and> snd (bulk_generate_images (init_service 50) (demo_world\<lparr>completion := [0, 1, 2]\<rparr>)
           [''a cat meme'', ''a dog meme'', ''a fox meme''] ''gpt-image-1'' None)
       = snd (bulk_generate_images (init_service 50) demo_world
           [''a cat meme'', ''a dog meme'', ''a fox meme''] ''gpt-image-1'' None)"
proof -
  let ?ps = "[''a cat meme'', ''a dog meme'', ''a fox meme'']"
  let ?ips = "[[''a.png''], [], [''b.png'', ''c.png'']]"
  have c: "completion_order 3 (completion demo_world)" "completion_order 3 [0, 1, 2]"
    by code_simp+
  then have h: "completion_order (length ?ps) (completion demo_world)"
    and h': "completion_order (length ?ps) [0, 1, 2]"
    by (simp_all add: numeral_3_eq_3)
  have "isl (snd (bulk_generate_images (init_service 50) demo_world ?ps ''gpt-image-1'' None)) = False"
    by code_simp
  then obtain evs rs where g:
    "bulk_generate_images (init_service 50) demo_world ?ps ''gpt-image-1'' None = (evs, Inr rs)"
    using not_isl_snd by blast
  have "isl (snd (bulk_edit_images (init_service 50) demo_world ?ps ?ips ''gpt-image-1''
                    (Some (Path ''out'')))) = False"
    by code_simp
  then obtain evs' rs' where e:
    "bulk_edit_images (init_service 50) demo_world ?ps ?ips ''gpt-image-1'' (Some (Path ''out''))
       = (evs', Inr rs')"
    using not_isl_snd by blast
  note inst = bulk_results_in_submission_order [OF h, where self = "init_service 50"
        and mdl = "''gpt-image-1''" and od = None and evs = evs and rs = rs
        and order' = "[0, 1, 2]"]
  have g': "length rs = 3 \<and> map index rs = [0, 1, 2]"
    using inst [THEN conjunct1] g by (simp add: upt_rec)
  have "snd (bulk_generate_images (init_service 50) (demo_world\<lparr>completion := [0, 1, 2]\<rparr>)
           ?ps ''gpt-image-1'' None) = Inr rs
      \<longleftrightarrow> snd (bulk_generate_images (init_service 50) demo_world ?ps ''gpt-image-1'' None) = Inr rs"
    using inst [THEN conjunct2, THEN conjunct2] h' by blast
  with g have o: "snd (bulk_generate_images (init_service 50) (demo_world\<lparr>completion := [0, 1, 2]\<rparr>)
           ?ps ''gpt-image-1'' None)
       = snd (bulk_generate_images (init_service 50) demo_world ?ps ''gpt-image-1'' None)"
    by simp
  have e': "length rs' = 3 \<and> map index rs' = [0, 1, 2]"
    using bulk_results_in_submission_order [OF h, where self = "init_service 50"
        and mdl = "''gpt-image-1''" and od = "Some (Path ''out'')" and ips = ?ips
        and evs' = evs' and rs' = rs', THEN conjunct2, THEN conjunct1] e
    by (simp add: upt_rec)
  from c g g' e e' o show ?thesis by simp
qed

section \<open>Preconditions of a batch\<close>

text \<open>
  C4. When the number of prompts differs from the number of source-image lists,
  \<open>bulk_edit_images\<close> raises \<open>ValueError\<close> with an empty event log: no directory is
  created, no task is submitted, no request reaches the backend. The tool function then
  logs no event either and never answers with a manifest.
\<close>

theorem bulk_edit_images_length_mismatch:
  assumes "length ps \<noteq> length ips"
  shows "bulk_edit_images self w ps ips mdl od
           = ([], Inl (ValueError ''Number of prompts must match number of image path lists''))
       \<and> (prompts inp = ps \<and> image_paths_list inp = ips \<longrightarrow>
            fst (tools_bulk_edit_images w inp) = []
            \<and> (\<forall>m. snd (tools_bulk_edit_images w inp) \<noteq> Inr (Batch m)))"
  using assms
  by (auto simp: bulk_edit_images_def tools_bulk_edit_images_def Let_def
           split: option.splits prod.splits)

theorem bulk_edit_images_length_mismatch_witness:
  "length [''one'', ''two'', ''three''] \<noteq> length [[''a.png''], [''b.png'']]
   \<and> bulk_edit_images (init_service 10) demo_world [''one'', ''two'', ''three'']
         [[''a.png''], [''b.png'']] ''gpt-image-1'' None
       = ([], Inl (ValueError ''Number of prompts must match number of image path lists''))
   \<and> fst (tools_bulk_edit_images demo_world
            \<lparr> prompts = [''one'', ''two'', ''three''], output_dir = None,
              model = ''gpt-image-1'', image_paths_list = [[''a.png''], [''b.png'']] \<rparr>) = []"
proof -
  have h: "length [''one'', ''two'', ''three''] \<noteq> length [[''a.png''], [''b.png'']]"
    by simp
  from h bulk_edit_images_length_mismatch [OF h, where self = "init_service 10"
      and w = demo_world and mdl = "''gpt-image-1''" and od = None
      and inp = "\<lparr> prompts = [''one'', ''two'', ''three''], output_dir = None,
              model = ''gpt-image-1'', image_paths_list = [[''a.png''], [''b.png'']] \<rparr>"]
  show ?thesis by simp
qed

text \<open>
  C5, as the specification has it, fails: an empty prompt list is no precondition error.
  With the directory \<open>out\<close> supplied, both bulk functions create the directory and the
  executor and return the empty result list, and the tool answers with a manifest whose
  \<open>success\<close> is true.
\<close>

theorem empty_batch_counterexample:
  "bulk_generate_images (init_service 10) idle_world [] ''gpt-image-1'' (Some (Path ''out''))
     = ([Mkdir ''out'', ThreadPool 10], Inr [])
   \<and> bulk_edit_images (init_service 10) idle_world [] [] ''gpt-image-1'' (Some (Path ''out''))
     = ([Mkdir ''out'', ThreadPool 10], Inr [])
   \<and> snd (tools_bulk_generate_images idle_world
            \<lparr> prompts = [], output_dir = Some ''out'', model = ''gpt-image-1'' \<rparr>)
     = Inr (Batch \<lparr> m_success = True, results = [], output_paths = [],
                    session_dir = Some ''out'',
                    message = ''Generated 0 images out of 0 requested'' \<rparr>)"
  by code_simp

text \<open>
  C5, amended. For the empty prompt list the session directory is resolved as for any
  batch; if that succeeds and the worker limit is positive, both bulk functions return the
  empty result list, and their events are those of the directory and the creation of the
  executor alone: nothing is submitted. The tool then answers with a manifest:
  \<open>success\<close> true, no results, no paths.
\<close>

theorem empty_batch_completes:
  assumes "completion w = []"
    and "resolve_session_dir (main_env w) od = (evs0, Inr d)"
  shows "(0 < max_workers self \<longrightarrow>
            bulk_generate_images self w [] mdl od
              = (evs0 @ [ThreadPool (max_workers self)], Inr [])
            \<and> bulk_edit_images self w [] [] mdl od
              = (evs0 @ [ThreadPool (max_workers self)], Inr []))
       \<and> (prompts inp = [] \<and> output_dir_path_of (output_dir inp) = od \<longrightarrow>
            tools_bulk_generate_images w inp
              = (evs0 @ [ThreadPool 10], Inr (Batch \<lparr> m_success = True, results = [], output_paths = [],
                      session_dir = map_option str_path od,
                      message = ''Generated 0 images out of 0 requested'' \<rparr>)))"
proof -
  have z: "str_nat 0 = ''0''"
    by (simp add: str_nat.simps [of 0] digit_char_def)
  have p: "0 < max_workers image_service" "max_workers image_service = 10"
    by (simp_all add: image_service_def init_service_def)
  have g: "0 < max_workers s \<Longrightarrow>
      bulk_generate_images s w [] m od = (evs0 @ [ThreadPool (max_workers s)], Inr [])" for s m
    using assms by (simp add: bulk_generate_images_def generate_tasks_def enumerate_eq_zip)
  have e: "0 < max_workers s \<Longrightarrow>
      bulk_edit_images s w [] [] m od = (evs0 @ [ThreadPool (max_workers s)], Inr [])" for s m
    using assms by (simp add: bulk_edit_images_def edit_tasks_def enumerate_eq_zip)
  have r: "reported_session_dir od [] = map_option str_path od"
    by (simp add: reported_session_dir_def split: option.splits)
  show ?thesis
    using g [of self mdl] e [of self mdl] g [OF p(1)] p(2) r z
    by (auto simp: tools_bulk_generate_images_def Let_def)
qed

theorem empty_batch_completes_witness:
  "completion idle_world = []
   \<and> resolve_session_dir (main_env idle_world) None
       = ([Mkdir ''generated_images/session_20240101_120000'',
           Mkdir ''generated_images/session_20240101_120000''],
          Inr (Path ''generated_images/session_20240101_120000''))
   \<and> 0 < max_workers (init_service 10)
   \<and> bulk_generate_images (init_service 10) idle_world [] ''gpt-image-1'' None
       = ([Mkdir ''generated_images/session_20240101_120000'',
           Mkdir ''generated_images/session_20240101_120000'', ThreadPool 10], Inr [])
   \<and> bulk_edit_images (init_service 10) idle_world [] [] ''gpt-image-1'' None
       = ([Mkdir ''generated_images/session_20240101_120000'',
           Mkdir ''generated_images/session_20240101_120000'', ThreadPool 10], Inr [])
   \<and> tools_bulk_generate_images idle_world
         \<lparr> prompts = [], output_dir = None, model = ''gpt-image-1'' \<rparr>
       = ([Mkdir ''generated_images/session_20240101_120000'',
           Mkdir ''generated_images/session_20240101_120000'', ThreadPool 10],
          Inr (Batch \<lparr> m_success = True, results = [], output_paths = [],
                  session_dir = None,
                  message = ''Generated 0 images out of 0 requested'' \<rparr>))"
proof -
  have c: "completion idle_world = []"
    by (simp add: idle_world_def)
  have r: "resolve_session_dir (main_env idle_world) None
       = ([Mkdir ''generated_images/session_20240101_120000'',
           Mkdir ''generated_images/session_20240101_120000''],
          Inr (Path ''generated_images/session_20240101_120000''))"
    by code_simp
  have p: "0 < max_workers (init_service 10)" "max_workers (init_service 10) = 10"
    by (simp_all add: init_service_def)
  have i: "prompts \<lparr> prompts = [], output_dir = None, model = ''gpt-image-1'' \<rparr> = []
      \<and> output_dir_path_of (output_dir
            \<lparr> prompts = [], output_dir = None, model = ''gpt-image-1'' \<rparr>) = None"
    by (simp add: output_dir_path_of_def)
  from empty_batch_completes [OF c r, where self = "init_service 10"
      and mdl = "''gpt-image-1''"
      and inp = "\<lparr> prompts = [], output_dir = None, model = ''gpt-image-1'' \<rparr>"] c r p i
  show ?thesis by simp
qed

section \<open>The model identifier of an edit batch\<close>

text \<open>
  C9 fails on the code. \<open>bulk_edit_images\<close> called with the model \<open>dall-e-2\<close> sends its
  request to the backend with the default model \<open>gpt-image-1\<close>: the task tuple holds no
  model and \<open>_worker_edit_image\<close> passes none. \<open>bulk_generate_images\<close> forwards it.
\<close>

theorem bulk_edit_images_drops_model:
  "bulk_edit_images (init_service 10) single_world [''add a hat''] [[''cat.png'']] ''dall-e-2''
       (Some (Path ''out''))
     = ([Mkdir ''out'', ThreadPool 10, Submit 0, OpenRead ''cat.png'',
         ImagesEdit ''gpt-image-1'' [''cat.png''] ''add a hat'',
         Makedirs ''out'', OpenWrite ''out/edited_image_000.png'',
         WriteBytes ''out/edited_image_000.png'' ''hi'', Close ''out/edited_image_000.png'',
         Close ''cat.png''],
        Inr [\<lparr> index = 0, success = True, output_path = Some ''out/edited_image_000.png'',
               error = None \<rparr>])
   \<and> fst (bulk_generate_images (init_service 10) single_world [''a cat''] ''dall-e-2''
            (Some (Path ''out'')))
     = [Mkdir ''out'', ThreadPool 10, Submit 0, ImagesGenerate ''dall-e-2'' ''a cat'',
        Makedirs ''out'', OpenWrite ''out/image_000.png'',
        WriteBytes ''out/image_000.png'' ''hi'', Close ''out/image_000.png'']"
  by code_simp

lemma bulk_edit_images_any_model:
  "bulk_edit_images self w ps ips mdl od = bulk_edit_images self w ps ips mdl' od"
  by (simp add: bulk_edit_images_def)

section \<open>File handles of an edit\<close>

text \<open>An open that raises ends \<open>edit_image\<close> before the request to the backend.\<close>

lemma edit_image_open_failure:
  "open_all e image_paths = (images, Some x) \<Longrightarrow>
   edit_image e p image_paths m out = (map OpenRead images, Inl x)"
  by (simp add: edit_image_def)

text \<open>
  C10 fails on the code in its second half. With \<open>a.png\<close> present and \<open>missing.png\<close>
  absent, \<open>edit_image\<close> raises before any request to the backend, as claimed, but the
  handle of \<open>a.png\<close> is still open when it does: the list comprehension that opens the
  files stands before the \<open>try\<close> whose \<open>finally\<close> closes them. The tool function
  answers a missing file before anything is opened, and leaves the handle open in the same
  way for a file that exists and cannot be opened.
\<close>

theorem edit_image_leaves_handle_open:
  "edit_image missing_env ''merge them'' [''a.png'', ''missing.png''] ''gpt-image-1''
       (Some ''out/merged.png'')
     = ([OpenRead ''a.png''], Inl (OSError ''No such file or directory: missing.png''))
   \<and> handles_left [] (fst (edit_image missing_env ''merge them'' [''a.png'', ''missing.png'']
                              ''gpt-image-1'' (Some ''out/merged.png''))) = [''a.png'']
   \<and> tools_edit_image missing_env
         \<lparr> edit_prompt = ''merge them'', edit_image_paths = [''a.png'', ''missing.png''],
           edit_output_path = Some ''out/merged.png'', edit_model = ''gpt-image-1'' \<rparr>
     = ([], Inr (EditError ''Source image not found: missing.png''))
   \<and> tools_edit_image locked_env
         \<lparr> edit_prompt = ''merge them'', edit_image_paths = [''a.png'', ''locked.png''],
           edit_output_path = Some ''out/merged.png'', edit_model = ''gpt-image-1'' \<rparr>
     = ([OpenRead ''a.png''], Inl (OSError ''Permission denied: locked.png''))
   \<and> handles_left [] (fst (edit_image ok_env ''merge them'' [''a.png'', ''b.png'']
                              ''gpt-image-1'' (Some ''out/merged.png''))) = []"
  by code_simp

section \<open>File names\<close>

lemma digit_cases:
  "d < (10::nat) \<Longrightarrow>
   d = 0 \<or> d = 1 \<or> d = 2 \<or> d = 3 \<or> d = 4 \<or> d = 5 \<or> d = 6 \<or> d = 7 \<or> d = 8 \<or> d = 9"
  by arith

lemma of_char_digit_char: "d < 10 \<Longrightarrow> of_char (digit_char d) = (48 + d :: nat)"
  by (drule digit_cases) (auto simp: digit_char_def)

lemma digit_value_digit_char: "d < 10 \<Longrightarrow> digit_value (digit_char d) = d"
  by (simp add: digit_value_def of_char_digit_char)

lemma digit_char_less: "a < 10 \<Longrightarrow> b < 10 \<Longrightarrow> digit_char a < digit_char b \<longleftrightarrow> a < b"
  by (simp add: less_char_def of_char_digit_char)

lemma digit_char_eq: "a < 10 \<Longrightarrow> b < 10 \<Longrightarrow> digit_char a = digit_char b \<longleftrightarrow> a = b"
  by (metis digit_value_digit_char)

lemma digit_char_0: "digit_char 0 = CHR ''0''"
  by (simp add: digit_char_def)

lemma read_nat_snoc: "read_nat (s @ [c]) = 10 * read_nat s + digit_value c"
  by (simp add: read_nat_def)

lemma read_nat_str_nat: "read_nat (str_nat n) = n"
proof (induction n rule: str_nat.induct)
  case (1 n)
  show ?case
  proof (cases "n < 10")
    case True
    then show ?thesis
      by (simp add: str_nat.simps [of n] read_nat_def digit_value_digit_char)
  next
    case False
    with 1 show ?thesis
      by (simp add: str_nat.simps [of n] read_nat_snoc digit_value_digit_char)
  qed
qed

lemma read_nat_zeros: "read_nat (replicate k (CHR ''0'') @ s) = read_nat s"
proof -
  have "foldl (\<lambda>a c. 10 * a + digit_value c) 0 (replicate k (CHR ''0'')) = 0"
    by (induction k) (simp_all add: digit_value_def)
  then show ?thesis by (simp add: read_nat_def)
qed

lemma read_nat_format_03d: "read_nat (format_03d i) = i"
  by (simp add: format_03d_def Let_def read_nat_zeros read_nat_str_nat)

lemma format_03d_inj: "format_03d i = format_03d j \<Longrightarrow> i = j"
  by (metis read_nat_format_03d)

lemma length_format_03d: "3 \<le> length (format_03d i)"
  by (simp add: format_03d_def Let_def)

lemma str_nat_digit: "n < 10 \<Longrightarrow> str_nat n = [digit_char n]"
  by (simp add: str_nat.simps [of n])

lemma str_nat_step: "\<not> n < 10 \<Longrightarrow> str_nat n = str_nat (n div 10) @ [digit_char (n mod 10)]"
  by (simp add: str_nat.simps [of n])

lemma format_03d_small:
  assumes "i < 1000"
  shows "format_03d i = [digit_char (i div 100), digit_char (i div 10 mod 10), digit_char (i mod 10)]"
proof -
  consider "i < 10" | "10 \<le> i" "i < 100" | "100 \<le> i" by linarith
  then show ?thesis
  proof cases
    case 1
    then show ?thesis
      by (simp add: format_03d_def str_nat_digit digit_char_0 numeral_3_eq_3)
  next
    case 2
    then have "i div 10 < 10" "\<not> i < 10" by simp_all
    with 2 show ?thesis
      by (simp add: format_03d_def str_nat_step str_nat_digit digit_char_0)
  next
    case 3
    with assms have a: "\<not> i div 10 < 10" "i div 10 div 10 < 10" "\<not> i < 10"
      by simp_all
    have b: "i div 10 div 10 = i div 100"
      by (simp add: div_mult2_eq [symmetric])
    have "str_nat i = [digit_char (i div 10 div 10), digit_char (i div 10 mod 10),
                       digit_char (i mod 10)]"
      using a by (simp add: str_nat_step str_nat_digit)
    then show ?thesis
      by (simp add: format_03d_def b)
  qed
qed

lemma lex3:
  fixes a2 a1 a0 b2 b1 b0 :: nat
  assumes "a1 < 10" "a0 < 10" "b1 < 10" "b0 < 10"
  shows "(a2 < b2 \<or> a2 = b2 \<and> (a1 < b1 \<or> a1 = b1 \<and> a0 < b0))
           \<longleftrightarrow> 100 * a2 + 10 * a1 + a0 < 100 * b2 + 10 * b1 + b0"
  using assms by linarith

lemma three_digits: "(i::nat) = 100 * (i div 100) + 10 * (i div 10 mod 10) + i mod 10"
proof -
  have "i = 10 * (i div 10) + i mod 10" by simp
  moreover have "i div 10 = 10 * (i div 10 div 10) + i div 10 mod 10" by simp
  moreover have "i div 10 div 10 = i div 100" by (simp add: div_mult2_eq [symmetric])
  ultimately show ?thesis by linarith
qed

lemma three_digits_order:
  fixes i j :: nat
  shows "(i div 100 < j div 100 \<or> i div 100 = j div 100 \<and>
          (i div 10 mod 10 < j div 10 mod 10 \<or> i div 10 mod 10 = j div 10 mod 10 \<and>
            i mod 10 < j mod 10)) \<longleftrightarrow> i < j"
proof -
  have "i mod 10 < 10" "j mod 10 < 10" "i div 10 mod 10 < 10" "j div 10 mod 10 < 10"
    by simp_all
  from lex3 [OF this(3) this(1) this(4) this(2), of "i div 100" "j div 100"]
  show ?thesis
    using three_digits [of i] three_digits [of j] by (simp only:)
qed

lemma format_03d_less:
  assumes "i < 1000" "j < 1000"
  shows "format_03d i < format_03d j \<longleftrightarrow> i < j"
proof -
  have d: "i div 100 < 10" "j div 100 < 10" "i div 10 mod 10 < 10" "j div 10 mod 10 < 10"
    "i mod 10 < 10" "j mod 10 < 10"
    using assms by simp_all
  have "format_03d i < format_03d j \<longleftrightarrow>
      (i div 100 < j div 100 \<or> i div 100 = j div 100 \<and>
          (i div 10 mod 10 < j div 10 mod 10 \<or> i div 10 mod 10 = j div 10 mod 10 \<and>
            i mod 10 < j mod 10))"
    using d by (simp add: format_03d_small assms digit_char_less digit_char_eq)
  then show ?thesis
    by (simp only: three_digits_order)
qed

lemma append_less_same: "xs @ ys < xs @ zs \<longleftrightarrow> ys < (zs :: 'a :: linorder list)"
  by (induction xs) simp_all

lemma less_append_same:
  "length ys = length zs \<Longrightarrow> ys @ s < zs @ s \<longleftrightarrow> ys < (zs :: 'a :: linorder list)"
  by (induction ys zs rule: list_induct2) simp_all

lemma length_format_03d_small: "i < 1000 \<Longrightarrow> length (format_03d i) = 3"
  by (simp add: format_03d_small)

lemma file_name_inj: "file_name prefix i = file_name prefix j \<Longrightarrow> i = j"
  by (simp add: file_name_def format_03d_inj)

lemma file_name_less:
  assumes "i < 1000" "j < 1000"
  shows "file_name prefix i < file_name prefix j \<longleftrightarrow> i < j"
proof -
  have "file_name prefix i < file_name prefix j
      \<longleftrightarrow> format_03d i @ ''.png'' < format_03d j @ ''.png''"
    unfolding file_name_def by (simp only: append_less_same)
  also have "\<dots> \<longleftrightarrow> format_03d i < format_03d j"
    by (rule less_append_same) (simp add: length_format_03d_small assms)
  finally show ?thesis by (simp only: format_03d_less [OF assms])
qed

lemma join_slash_snoc:
  "join_slash (ps @ [n]) = (if ps = [] then n else join_slash ps @ ''/'' @ n)"
  by (induction ps rule: join_slash.induct) simp_all

lemma path_for_split: "path_for dir prefix i = dir_prefix dir @ file_name prefix i"
  by (simp add: path_for_def str_path_def path_join_def join_slash_snoc dir_prefix_def)

lemma path_for_inj: "path_for dir prefix i = path_for dir prefix j \<Longrightarrow> i = j"
  by (simp add: path_for_split file_name_inj)

lemma path_for_less:
  "i < 1000 \<Longrightarrow> j < 1000 \<Longrightarrow> path_for dir prefix i < path_for dir prefix j \<longleftrightarrow> i < j"
  by (simp only: path_for_split append_less_same file_name_less)

lemma generate_task_path:
  "k < length ps \<Longrightarrow>
   generate_tasks d mdl ps ! k = (ps ! k, mdl, k, path_for d ''image'' k)"
  by (simp add: nth_generate_tasks path_for_def file_name_def)

lemma edit_task_path:
  "k < length ps \<Longrightarrow> length ps = length ips \<Longrightarrow>
   edit_tasks d ps ips ! k = (ps ! k, ips ! k, k, path_for d ''edited_image'' k)"
  by (simp add: nth_edit_tasks path_for_def file_name_def)

lemma dir_prefix_str_path: "parts dir \<noteq> [] \<Longrightarrow> dir_prefix dir = str_path dir @ ''/''"
  by (simp add: dir_prefix_def str_path_def)

text \<open>
  C6, as the specification has it, fails in its last part: in a batch of 1001 prompts the
  tasks 999 and 1000 get the paths \<open>out/image_999.png\<close> and \<open>out/image_1000.png\<close>, and
  the second sorts before the first.
\<close>

theorem lexical_order_counterexample:
  "snd (snd (snd (generate_tasks (Path ''out'') ''gpt-image-1'' (replicate 1001 ''meme'') ! 999)))
     = ''out/image_999.png''
   \<and> snd (snd (snd (generate_tasks (Path ''out'') ''gpt-image-1'' (replicate 1001 ''meme'') ! 1000)))
     = ''out/image_1000.png''
   \<and> ''out/image_1000.png'' < ''out/image_999.png''"
proof -
  have "path_for (Path ''out'') ''image'' 999 = ''out/image_999.png''"
    and "path_for (Path ''out'') ''image'' 1000 = ''out/image_1000.png''"
    by code_simp+
  moreover have "''out/image_1000.png'' < ''out/image_999.png''"
    by (simp add: less_char_def)
  ultimately show ?thesis
    by (simp add: generate_task_path)
qed

text \<open>
  C6, amended. The output path of task \<open>k\<close> is \<open>path_for\<close> of the session directory, the
  prefix \<open>image\<close> or \<open>edited_image\<close>, and \<open>k\<close>: the directory, a slash, the prefix, an
  underscore, the index in decimal padded to at least three digits, and \<open>.png\<close>. Distinct
  indices give distinct names and paths. Below 1000 the lexical order of the names and of
  the paths is the order of the indices.
\<close>

theorem task_paths_by_index:
  "(k < length ps \<longrightarrow>
      snd (snd (snd (generate_tasks d mdl ps ! k))) = path_for d ''image'' k)
   \<and> (k < length ps \<and> length ps = length ips \<longrightarrow>
      snd (snd (snd (edit_tasks d ps ips ! k))) = path_for d ''edited_image'' k)
   \<and> path_for d prefix i = dir_prefix d @ prefix @ ''_'' @ format_03d i @ ''.png''
   \<and> (parts d \<noteq> [] \<longrightarrow> path_for d prefix i = str_path d @ ''/'' @ file_name prefix i)
   \<and> 3 \<le> length (format_03d i) \<and> read_nat (format_03d i) = i
   \<and> (i \<noteq> j \<longrightarrow>
        file_name prefix i \<noteq> file_name prefix j \<and> path_for d prefix i \<noteq> path_for d prefix j)
   \<and> (i < 1000 \<and> j < 1000 \<longrightarrow>
        (file_name prefix i < file_name prefix j \<longleftrightarrow> i < j)
        \<and> (path_for d prefix i < path_for d prefix j \<longleftrightarrow> i < j))"
proof (intro conjI impI)
  show "path_for d prefix i = dir_prefix d @ prefix @ ''_'' @ format_03d i @ ''.png''"
    by (simp add: path_for_split file_name_def)
  show "3 \<le> length (format_03d i)"
    by (rule length_format_03d)
  show "read_nat (format_03d i) = i"
    by (rule read_nat_format_03d)
next
  assume "k < length ps"
  then show "snd (snd (snd (generate_tasks d mdl ps ! k))) = path_for d ''image'' k"
    by (simp add: generate_task_path)
next
  assume "k < length ps \<and> length ps = length ips"
  then show "snd (snd (snd (edit_tasks d ps ips ! k))) = path_for d ''edited_image'' k"
    by (simp add: edit_task_path)
next
  assume "parts d \<noteq> []"
  then show "path_for d prefix i = str_path d @ ''/'' @ file_name prefix i"
    by (simp add: path_for_split dir_prefix_str_path)
next
  assume "i \<noteq> j"
  then show "file_name prefix i \<noteq> file_name prefix j" "path_for d prefix i \<noteq> path_for d prefix j"
    using file_name_inj path_for_inj by blast+
next
  assume "i < 1000 \<and> j < 1000"
  then show "file_name prefix i < file_name prefix j \<longleftrightarrow> i < j"
    "path_for d prefix i < path_for d prefix j \<longleftrightarrow> i < j"
    by (simp_all only: file_name_less path_for_less)
qed

theorem task_paths_by_index_witness:
  "(1::nat) < length [''a cat meme'', ''a dog meme''] \<and> (3::nat) \<noteq> 42
   \<and> (3::nat) < 1000 \<and> (42::nat) < 1000 \<and> parts (Path ''out'') \<noteq> []
   \<and> length [''a cat meme'', ''a dog meme''] = length [[''a.png''], [''b.png'']]
   \<and> snd (snd (snd (generate_tasks (Path ''out'') ''gpt-image-1''
                       [''a cat meme'', ''a dog meme''] ! 1))) = ''out/image_001.png''
   \<and> snd (snd (snd (edit_tasks (Path ''out'') [''a cat meme'', ''a dog meme'']
                       [[''a.png''], [''b.png'']] ! 1))) = ''out/edited_image_001.png''
   \<and> path_for (Path ''out'') ''image'' 3 = ''out/image_003.png''
   \<and> path_for (Path ''out'') ''image'' 42 = ''out/image_042.png''
   \<and> path_for (Path ''out'') ''image'' 3 \<noteq> path_for (Path ''out'') ''image'' 42
   \<and> file_name ''image'' 3 < file_name ''image'' 42
   \<and> path_for (Path ''out'') ''image'' 3 < path_for (Path ''out'') ''image'' 42"
proof -
  have h: "(1::nat) < length [''a cat meme'', ''a dog meme'']" "(3::nat) \<noteq> 42"
    "(3::nat) < 1000" "(42::nat) < 1000"
    "length [''a cat meme'', ''a dog meme''] = length [[''a.png''], [''b.png'']]"
    by simp_all
  have lt: "(3::nat) < 42"
    by simp
  have p: "parts (Path ''out'') \<noteq> []"
    by code_simp
  have v: "path_for (Path ''out'') ''image'' 1 = ''out/image_001.png''"
    "path_for (Path ''out'') ''edited_image'' 1 = ''out/edited_image_001.png''"
    "path_for (Path ''out'') ''image'' 3 = ''out/image_003.png''"
    "path_for (Path ''out'') ''image'' 42 = ''out/image_042.png''"
    by code_simp+
  from task_paths_by_index [where k = 1 and ps = "[''a cat meme'', ''a dog meme'']"
      and ips = "[[''a.png''], [''b.png'']]" and d = "Path ''out''" and mdl = "''gpt-image-1''"
      and prefix = "''image''" and i = 3 and j = 42] h p lt
  have "snd (snd (snd (generate_tasks (Path ''out'') ''gpt-image-1''
                       [''a cat meme'', ''a dog meme''] ! 1))) = path_for (Path ''out'') ''image'' 1"
    and "snd (snd (snd (edit_tasks (Path ''out'') [''a cat meme'', ''a dog meme'']
                       [[''a.png''], [''b.png'']] ! 1))) = path_for (Path ''out'') ''edited_image'' 1"
    and "path_for (Path ''out'') ''image'' 3 \<noteq> path_for (Path ''out'') ''image'' 42"
    and "file_name ''image'' 3 < file_name ''image'' 42"
    and "path_for (Path ''out'') ''image'' 3 < path_for (Path ''out'') ''image'' 42"
    by blast+
  with h p v show ?thesis by (simp only: simp_thms)
qed

section \<open>The results of the tasks\<close>

lemma resolve_session_dir_batch_dir:
  "resolve_session_dir e od = (evs, Inr d) \<Longrightarrow> d = batch_dir e od"
  by (auto simp: resolve_session_dir_def generate_session_directory_def batch_dir_def
        allocated_dir_def Let_def split: option.splits sum.splits prod.splits)

lemma snd_worker_generate_image:
  "snd (worker_generate_image e (p, m, k, out))
     = (case snd (generate_image e p m (Some out)) of
          Inl x \<Rightarrow> if is_exception x then Inr (failed_result k x) else Inl x
        | Inr r \<Rightarrow> Inr (ok_result k out))"
  by (simp add: ok_result_def failed_result_def split: prod.splits sum.splits)

lemma snd_worker_edit_image:
  "snd (worker_edit_image e (p, ips, k, out))
     = (case snd (edit_image e p ips default_model (Some out)) of
          Inl x \<Rightarrow> if is_exception x then Inr (failed_result k x) else Inl x
        | Inr r \<Rightarrow> Inr (ok_result k out))"
  by (simp add: ok_result_def failed_result_def split: prod.splits sum.splits)

lemma generate_future_eq:
  "k < length ps \<Longrightarrow>
   generate_future w d mdl ps k
     = (case snd (generate_image (task_env w k) (ps ! k) mdl (Some (path_for d ''image'' k))) of
          Inl x \<Rightarrow> if is_exception x then Inr (failed_result k x) else Inl x
        | Inr r \<Rightarrow> Inr (ok_result k (path_for d ''image'' k)))"
  by (simp add: generate_future_def generate_task_path snd_worker_generate_image
        del: worker_generate_image.simps split: sum.splits)

lemma edit_future_eq:
  "k < length ps \<Longrightarrow> length ps = length ips \<Longrightarrow>
   edit_future w d ps ips k
     = (case snd (edit_image (task_env w k) (ps ! k) (ips ! k) default_model
                    (Some (path_for d ''edited_image'' k))) of
          Inl x \<Rightarrow> if is_exception x then Inr (failed_result k x) else Inl x
        | Inr r \<Rightarrow> Inr (ok_result k (path_for d ''edited_image'' k)))"
  by (simp add: edit_future_def edit_task_path snd_worker_edit_image
        del: worker_edit_image.simps split: sum.splits)

lemma generate_result_path:
  "k < length ps \<Longrightarrow> generate_future w d mdl ps k = Inr r \<Longrightarrow> success r \<Longrightarrow>
   output_path r = Some (path_for d ''image'' k)"
  by (auto simp: generate_future_eq ok_result_def failed_result_def split: sum.splits if_splits)

lemma edit_result_path:
  "k < length ps \<Longrightarrow> length ps = length ips \<Longrightarrow> edit_future w d ps ips k = Inr r \<Longrightarrow>
   success r \<Longrightarrow> output_path r = Some (path_for d ''edited_image'' k)"
  by (auto simp: edit_future_eq ok_result_def failed_result_def split: sum.splits if_splits)

lemma generate_result_failed:
  "k < length ps \<Longrightarrow> generate_future w d mdl ps k = Inr r \<Longrightarrow> \<not> success r \<Longrightarrow>
   output_path r = None \<and> (\<exists>msg. error r = Some msg)"
  by (auto simp: generate_future_eq ok_result_def failed_result_def split: sum.splits if_splits)

lemma edit_result_failed:
  "k < length ps \<Longrightarrow> length ps = length ips \<Longrightarrow> edit_future w d ps ips k = Inr r \<Longrightarrow>
   \<not> success r \<Longrightarrow> output_path r = None \<and> (\<exists>msg. error r = Some msg)"
  by (auto simp: edit_future_eq ok_result_def failed_result_def split: sum.splits if_splits)

lemma successful_paths:
  assumes len: "length rs = n"
    and idx: "\<And>k. k < n \<Longrightarrow> index (rs ! k) = k"
    and out: "\<And>k. k < n \<Longrightarrow> success (rs ! k) \<Longrightarrow> output_path (rs ! k) = Some (p k)"
  shows "map output_path (filter success rs)
           = map (\<lambda>i. Some (p i)) (filter (\<lambda>i. success (rs ! i)) [0..<n])"
    and "map index (filter success rs) = filter (\<lambda>i. success (rs ! i)) [0..<n]"
proof -
  have "map ((!) rs) [0..<length rs] = rs"
    by (rule map_nth)
  then have rs: "rs = map ((!) rs) [0..<n]"
    by (simp only: len)
  have s: "filter success rs = map ((!) rs) (filter (\<lambda>i. success (rs ! i)) [0..<n])"
    by (subst rs) (simp add: filter_map comp_def)
  show "map output_path (filter success rs)
           = map (\<lambda>i. Some (p i)) (filter (\<lambda>i. success (rs ! i)) [0..<n])"
    unfolding s by (simp add: out)
  show "map index (filter success rs) = filter (\<lambda>i. success (rs ! i)) [0..<n]"
    unfolding s by (rule map_idI [THEN trans [OF map_map]]) (simp add: idx)
qed

lemma failed_path_absent:
  assumes len: "length rs = n"
    and out: "\<And>k. k < n \<Longrightarrow> success (rs ! k) \<Longrightarrow> output_path (rs ! k) = Some (p k)"
    and inj: "\<And>i j. p i = p j \<Longrightarrow> i = j"
    and i: "i < n" "\<not> success (rs ! i)"
  shows "Some (p i) \<notin> set (map output_path (filter success rs))"
proof
  assume "Some (p i) \<in> set (map output_path (filter success rs))"
  then obtain r where "r \<in> set rs" "success r" "output_path r = Some (p i)"
    by auto
  then obtain j where j: "j < n" "success (rs ! j)" "output_path (rs ! j) = Some (p i)"
    using len by (auto simp: in_set_conv_nth)
  with out have "p j = p i" by simp
  with inj have "j = i" by blast
  with j i show False by simp
qed

lemma tools_bulk_generate_images_Batch:
  assumes "tools_bulk_generate_images w inp = (evs, Inr (Batch m))"
  shows "bulk_generate_images image_service w (prompts inp) (model inp)
           (output_dir_path_of (output_dir inp)) = (evs, Inr (results m))"
    and "output_paths m = map output_path (filter success (results m))"
    and "m_success m = list_all success (results m)"
    and "session_dir m = reported_session_dir (output_dir_path_of (output_dir inp)) (results m)"
  using assms
  by (auto simp: tools_bulk_generate_images_def Let_def split: prod.splits sum.splits)

lemma tools_bulk_edit_images_Batch:
  assumes "tools_bulk_edit_images w inp = (evs, Inr (Batch m))"
  shows "bulk_edit_images image_service w (prompts inp) (image_paths_list inp) (model inp)
           (output_dir_path_of (output_dir inp)) = (evs, Inr (results m))"
    and "output_paths m = map output_path (filter success (results m))"
    and "m_success m = list_all success (results m)"
    and "session_dir m = reported_session_dir (output_dir_path_of (output_dir inp)) (results m)"
  using assms
  by (auto simp: tools_bulk_edit_images_def Let_def split: prod.splits sum.splits option.splits)

lemma bulk_generate_images_results:
  assumes ord: "completion_order (length ps) (completion w)"
    and run: "bulk_generate_images self w ps mdl od = (evs, Inr rs)"
  shows "length rs = length ps"
    and "\<And>k. k < length ps \<Longrightarrow>
           generate_future w (batch_dir (main_env w) od) mdl ps k = Inr (rs ! k)"
  using bulk_generate_images_Inr [OF ord run] resolve_session_dir_batch_dir by blast+

lemma bulk_edit_images_results:
  assumes ord: "completion_order (length ps) (completion w)"
    and run: "bulk_edit_images self w ps ips mdl od = (evs, Inr rs)"
  shows "length rs = length ps"
    and "length ps = length ips"
    and "\<And>k. k < length ps \<Longrightarrow>
           edit_future w (batch_dir (main_env w) od) ps ips k = Inr (rs ! k)"
  using bulk_edit_images_Inr [OF ord run] resolve_session_dir_batch_dir by blast+

section \<open>The manifest\<close>

text \<open>
  C2. In the manifest of a batch, \<open>output_paths\<close> is the list of the output paths of the
  successful results, in the order of the results. It is the list of the paths
  \<open>path_for dir prefix i\<close> of the indices \<open>i\<close> whose result is successful, in ascending
  order of \<open>i\<close>; a failed result has no path, and the path of its task is not in the list.
\<close>

theorem manifest_output_paths:
  "(completion_order (length (prompts inp)) (completion w)
      \<and> tools_bulk_generate_images w inp = (evs, Inr (Batch m)) \<longrightarrow>
        output_paths m = map output_path (filter success (results m))
      \<and> output_paths m
          = map (\<lambda>i. Some (path_for (batch_dir (main_env w) (output_dir_path_of (output_dir inp)))
                             ''image'' i))
              (filter (\<lambda>i. success (results m ! i)) [0..<length (prompts inp)])
      \<and> map index (filter success (results m))
          = filter (\<lambda>i. success (results m ! i)) [0..<length (prompts inp)]
      \<and> (\<forall>i<length (prompts inp). \<not> success (results m ! i) \<longrightarrow>
            output_path (results m ! i) = None
            \<and> Some (path_for (batch_dir (main_env w) (output_dir_path_of (output_dir inp)))
                      ''image'' i) \<notin> set (output_paths m)))
   \<and> (completion_order (length (prompts einp)) (completion w)
      \<and> tools_bulk_edit_images w einp = (evs', Inr (Batch m')) \<longrightarrow>
        output_paths m' = map output_path (filter success (results m'))
      \<and> output_paths m'
          = map (\<lambda>i. Some (path_for (batch_dir (main_env w) (output_dir_path_of (output_dir einp)))
                             ''edited_image'' i))
              (filter (\<lambda>i. success (results m' ! i)) [0..<length (prompts einp)])
      \<and> map index (filter success (results m'))
          = filter (\<lambda>i. success (results m' ! i)) [0..<length (prompts einp)]
      \<and> (\<forall>i<length (prompts einp). \<not> success (results m' ! i) \<longrightarrow>
            output_path (results m' ! i) = None
            \<and> Some (path_for (batch_dir (main_env w) (output_dir_path_of (output_dir einp)))
                      ''edited_image'' i) \<notin> set (output_paths m')))"
proof (intro conjI impI)
  let ?d = "batch_dir (main_env w) (output_dir_path_of (output_dir inp))"
  assume a: "completion_order (length (prompts inp)) (completion w)
      \<and> tools_bulk_generate_images w inp = (evs, Inr (Batch m))"
  note b = tools_bulk_generate_images_Batch [OF a [THEN conjunct2]]
  note c = bulk_generate_images_results [OF a [THEN conjunct1] b(1)]
  have idx: "index (results m ! k) = k" if "k < length (prompts inp)" for k
    by (rule index_generate_future [OF that c(2) [OF that]])
  have out: "output_path (results m ! k) = Some (path_for ?d ''image'' k)"
    if "k < length (prompts inp)" "success (results m ! k)" for k
    by (rule generate_result_path [OF that(1) c(2) [OF that(1)] that(2)])
  show p: "output_paths m = map output_path (filter success (results m))"
    by (rule b(2))
  show "output_paths m = map (\<lambda>i. Some (path_for ?d ''image'' i))
              (filter (\<lambda>i. success (results m ! i)) [0..<length (prompts inp)])"
    unfolding p by (rule successful_paths(1) [OF c(1) idx out])
  show "map index (filter success (results m))
          = filter (\<lambda>i. success (results m ! i)) [0..<length (prompts inp)]"
    by (rule successful_paths(2) [OF c(1) idx out])
  show "\<forall>i<length (prompts inp). \<not> success (results m ! i) \<longrightarrow>
            output_path (results m ! i) = None
            \<and> Some (path_for ?d ''image'' i) \<notin> set (output_paths m)"
  proof (intro allI impI conjI)
    fix i
    assume i: "i < length (prompts inp)" "\<not> success (results m ! i)"
    show "output_path (results m ! i) = None"
      using generate_result_failed [OF i(1) c(2) [OF i(1)] i(2)] by simp
    show "Some (path_for ?d ''image'' i) \<notin> set (output_paths m)"
      unfolding p by (rule failed_path_absent [OF c(1) out _ i]) (simp_all add: path_for_inj)
  qed
next
  let ?d = "batch_dir (main_env w) (output_dir_path_of (output_dir einp))"
  assume a: "completion_order (length (prompts einp)) (completion w)
      \<and> tools_bulk_edit_images w einp = (evs', Inr (Batch m'))"
  note b = tools_bulk_edit_images_Batch [OF a [THEN conjunct2]]
  note c = bulk_edit_images_results [OF a [THEN conjunct1] b(1)]
  have idx: "index (results m' ! k) = k" if "k < length (prompts einp)" for k
    by (rule index_edit_future [OF that c(2) c(3) [OF that]])
  have out: "output_path (results m' ! k) = Some (path_for ?d ''edited_image'' k)"
    if "k < length (prompts einp)" "success (results m' ! k)" for k
    by (rule edit_result_path [OF that(1) c(2) c(3) [OF that(1)] that(2)])
  show p: "output_paths m' = map output_path (filter success (results m'))"
    by (rule b(2))
  show "output_paths m' = map (\<lambda>i. Some (path_for ?d ''edited_image'' i))
              (filter (\<lambda>i. success (results m' ! i)) [0..<length (prompts einp)])"
    unfolding p by (rule successful_paths(1) [OF c(1) idx out])
  show "map index (filter success (results m'))
          = filter (\<lambda>i. success (results m' ! i)) [0..<length (prompts einp)]"
    by (rule successful_paths(2) [OF c(1) idx out])
  show "\<forall>i<length (prompts einp). \<not> success (results m' ! i) \<longrightarrow>
            output_path (results m' ! i) = None
            \<and> Some (path_for ?d ''edited_image'' i) \<notin> set (output_paths m')"
  proof (intro allI impI conjI)
    fix i
    assume i: "i < length (prompts einp)" "\<not> success (results m' ! i)"
    show "output_path (results m' ! i) = None"
      using edit_result_failed [OF i(1) c(2) c(3) [OF i(1)] i(2)] by simp
    show "Some (path_for ?d ''edited_image'' i) \<notin> set (output_paths m')"
      unfolding p by (rule failed_path_absent [OF c(1) out _ i]) (simp_all add: path_for_inj)
  qed
qed

theorem manifest_output_paths_witness:
  "completion_order
     (length (prompts \<lparr> prompts = [''a cat meme'', ''a dog meme'', ''a fox meme''],
                        output_dir = Some ''out'', model = ''gpt-image-1'' \<rparr>))
     (completion demo_world)
   \<and> (\<exists>evs m. tools_bulk_generate_images demo_world
          \<lparr> prompts = [''a cat meme'', ''a dog meme'', ''a fox meme''],
            output_dir = Some ''out'', model = ''gpt-image-1'' \<rparr> = (evs, Inr (Batch m))
        \<and> map success (results m) = [True, False, True]
        \<and> output_paths m = [Some ''out/image_000.png'', Some ''out/image_002.png'']
        \<and> map index (filter success (results m)) = [0, 2]
        \<and> Some (path_for (Path ''out'') ''image'' 1) \<notin> set (output_paths m))
   \<and> (\<exists>evs m. tools_bulk_edit_images demo_world
          \<lparr> prompts = [''a cat meme'', ''a dog meme'', ''a fox meme''],
            output_dir = Some ''out'', model = ''gpt-image-1'',
            image_paths_list = [[''a.png''], [''b.png''], [''c.png'']] \<rparr> = (evs, Inr (Batch m))
        \<and> map success (results m) = [True, False, True]
        \<and> output_paths m
            = [Some ''out/edited_image_000.png'', Some ''out/edited_image_002.png''])"
proof -
  let ?inp = "\<lparr> prompts = [''a cat meme'', ''a dog meme'', ''a fox meme''],
                 output_dir = Some ''out'', model = ''gpt-image-1'' \<rparr>"
  let ?einp = "\<lparr> prompts = [''a cat meme'', ''a dog meme'', ''a fox meme''],
                  output_dir = Some ''out'', model = ''gpt-image-1'',
                  image_paths_list = [[''a.png''], [''b.png''], [''c.png'']] \<rparr>"
  let ?rs = "[ok_result 0 ''out/image_000.png'', failed_result 1 (APIError ''rate limited''),
              ok_result 2 ''out/image_002.png'']"
  let ?ers = "[ok_result 0 ''out/edited_image_000.png'',
               failed_result 1 (APIError ''rate limited''),
               ok_result 2 ''out/edited_image_002.png'']"
  let ?m = "\<lparr> m_success = False, results = ?rs,
                output_paths = [Some ''out/image_000.png'', Some ''out/image_002.png''],
                session_dir = Some ''out'',
                message = ''Generated 2 images out of 3 requested'' \<rparr>"
  let ?m' = "\<lparr> m_success = False, results = ?ers,
                 output_paths = [Some ''out/edited_image_000.png'',
                                 Some ''out/edited_image_002.png''],
                 session_dir = Some ''out'',
                 message = ''Edited 2 images out of 3 requested'' \<rparr>"
  have c: "completion_order (length (prompts ?inp)) (completion demo_world)"
    "completion_order (length (prompts ?einp)) (completion demo_world)"
    by code_simp+
  have "snd (tools_bulk_generate_images demo_world ?inp) = Inr (Batch ?m)"
    by code_simp
  then obtain evs where g: "tools_bulk_generate_images demo_world ?inp = (evs, Inr (Batch ?m))"
    by (metis prod.collapse)
  have "snd (tools_bulk_edit_images demo_world ?einp) = Inr (Batch ?m')"
    by code_simp
  then obtain evs' where e: "tools_bulk_edit_images demo_world ?einp = (evs', Inr (Batch ?m'))"
    by (metis prod.collapse)
  have d: "batch_dir (main_env demo_world) (output_dir_path_of (output_dir ?inp)) = Path ''out''"
    by (simp add: batch_dir_def output_dir_path_of_def)
  have v: "path_for (Path ''out'') ''image'' 0 = ''out/image_000.png''"
    "path_for (Path ''out'') ''image'' 2 = ''out/image_002.png''"
    by code_simp+
  from manifest_output_paths [where w = demo_world and inp = ?inp and evs = evs
      and einp = ?einp and evs' = evs' and m = ?m and m' = ?m'] c(1) g
  have a: "\<forall>i<length (prompts ?inp). \<not> success (results ?m ! i) \<longrightarrow>
            output_path (results ?m ! i) = None
            \<and> Some (path_for (batch_dir (main_env demo_world)
                                 (output_dir_path_of (output_dir ?inp))) ''image'' i)
                \<notin> set (output_paths ?m)"
    by blast
  have i: "(1::nat) < length (prompts ?inp)" "\<not> success (results ?m ! 1)"
    by (simp_all add: failed_result_def)
  from a i have "Some (path_for (batch_dir (main_env demo_world)
                                 (output_dir_path_of (output_dir ?inp))) ''image'' 1)
                \<notin> set (output_paths ?m)"
    by blast
  then have n: "Some (path_for (Path ''out'') ''image'' 1) \<notin> set (output_paths ?m)"
    by (simp only: d simp_thms)
  have r: "map success (results ?m) = [True, False, True]"
    "map index (filter success (results ?m)) = [0, 2]"
    "map success (results ?m') = [True, False, True]"
    by (simp_all add: ok_result_def failed_result_def)
  from c(1) g e n r show ?thesis
    by (intro conjI exI [of _ evs] exI [of _ evs'] exI [of _ ?m] exI [of _ ?m'])
      (simp_all only: manifest.simps simp_thms)
qed

section \<open>Failures of single tasks\<close>

lemma generate_future_caught:
  assumes "k < length ps"
    and "catchable (snd (generate_image (task_env w k) (ps ! k) mdl (Some (path_for d ''image'' k))))"
  shows "generate_future w d mdl ps k
           = Inr (case snd (generate_image (task_env w k) (ps ! k) mdl
                              (Some (path_for d ''image'' k))) of
                    Inl x \<Rightarrow> failed_result k x
                  | Inr r \<Rightarrow> ok_result k (path_for d ''image'' k))"
  using assms by (auto simp: generate_future_eq catchable_def split: sum.splits)

lemma edit_future_caught:
  assumes "k < length ps" and "length ps = length ips"
    and "catchable (snd (edit_image (task_env w k) (ps ! k) (ips ! k) default_model
                           (Some (path_for d ''edited_image'' k))))"
  shows "edit_future w d ps ips k
           = Inr (case snd (edit_image (task_env w k) (ps ! k) (ips ! k) default_model
                              (Some (path_for d ''edited_image'' k))) of
                    Inl x \<Rightarrow> failed_result k x
                  | Inr r \<Rightarrow> ok_result k (path_for d ''edited_image'' k))"
  using assms by (auto simp: edit_future_eq catchable_def split: sum.splits)

lemma generate_future_uncaught:
  assumes "k < length ps"
    and "\<not> catchable (snd (generate_image (task_env w k) (ps ! k) mdl
                              (Some (path_for d ''image'' k))))"
  shows "isl (generate_future w d mdl ps k)"
  using assms by (auto simp: generate_future_eq catchable_def split: sum.splits)

lemma edit_future_uncaught:
  assumes "k < length ps" and "length ps = length ips"
    and "\<not> catchable (snd (edit_image (task_env w k) (ps ! k) (ips ! k) default_model
                              (Some (path_for d ''edited_image'' k))))"
  shows "isl (edit_future w d ps ips k)"
  using assms by (auto simp: edit_future_eq catchable_def split: sum.splits)

lemma bulk_generate_images_isolated:
  assumes ord: "completion_order (length ps) (completion w)"
    and dir: "resolve_session_dir (main_env w) od = (evs0, Inr d)"
    and pool: "0 < max_workers self"
    and ok: "\<And>k. k < length ps \<Longrightarrow>
               catchable (snd (generate_image (task_env w k) (ps ! k) mdl
                                 (Some (path_for d ''image'' k))))"
  shows "\<exists>evs rs. bulk_generate_images self w ps mdl od = (evs, Inr rs)
           \<and> length rs = length ps
           \<and> (\<forall>k<length ps. rs ! k =
                 (case snd (generate_image (task_env w k) (ps ! k) mdl
                              (Some (path_for d ''image'' k))) of
                    Inl x \<Rightarrow> failed_result k x
                  | Inr r \<Rightarrow> ok_result k (path_for d ''image'' k)))
           \<and> (\<forall>j e'.
                 (j < length ps \<longrightarrow>
                    catchable (snd (generate_image e' (ps ! j) mdl
                                      (Some (path_for d ''image'' j)))))
                 \<longrightarrow> (\<exists>evs' rs'.
                   bulk_generate_images self (w\<lparr>task_env := (task_env w)(j := e')\<rparr>) ps mdl od
                     = (evs', Inr rs')
                   \<and> (\<forall>k<length ps. k \<noteq> j \<longrightarrow> rs' ! k = rs ! k)))"
proof -
  define f where "f (v::world) k =
      (case snd (generate_image (task_env v k) (ps ! k) mdl (Some (path_for d ''image'' k))) of
         Inl x \<Rightarrow> failed_result k x
       | Inr r \<Rightarrow> ok_result k (path_for d ''image'' k))" for v k
  let ?rs = "map (f w) [0..<length ps]"
  have all: "generate_future w d mdl ps k = Inr (f w k)" if "k < length ps" for k
    unfolding f_def by (rule generate_future_caught [OF that ok [OF that]])
  have run: "snd (bulk_generate_images self w ps mdl od) = Inr ?rs"
    by (rule bulk_generate_images_runs [OF ord dir pool all])
  have other: "\<exists>evs' rs'.
      bulk_generate_images self (w\<lparr>task_env := (task_env w)(j := e')\<rparr>) ps mdl od = (evs', Inr rs')
      \<and> (\<forall>k<length ps. k \<noteq> j \<longrightarrow> rs' ! k = ?rs ! k)"
    if e': "j < length ps \<longrightarrow>
        catchable (snd (generate_image e' (ps ! j) mdl (Some (path_for d ''image'' j))))"
    for j e'
  proof -
    let ?w = "w\<lparr>task_env := (task_env w)(j := e')\<rparr>"
    have o: "completion_order (length ps) (completion ?w)"
      using ord by simp
    have r: "resolve_session_dir (main_env ?w) od = (evs0, Inr d)"
      using dir by simp
    have ok': "catchable (snd (generate_image (task_env ?w k) (ps ! k) mdl
                                 (Some (path_for d ''image'' k))))" if "k < length ps" for k
      using ok [OF that] e' that by (cases "k = j") simp_all
    have all': "generate_future ?w d mdl ps k = Inr (f ?w k)" if "k < length ps" for k
      unfolding f_def by (rule generate_future_caught [OF that ok' [OF that]])
    have "snd (bulk_generate_images self ?w ps mdl od) = Inr (map (f ?w) [0..<length ps])"
      by (rule bulk_generate_images_runs [OF o r pool all'])
    then have "bulk_generate_images self ?w ps mdl od
        = (fst (bulk_generate_images self ?w ps mdl od), Inr (map (f ?w) [0..<length ps]))"
      by (metis prod.collapse)
    moreover have "\<forall>k<length ps. k \<noteq> j \<longrightarrow> map (f ?w) [0..<length ps] ! k = ?rs ! k"
      by (simp add: f_def)
    ultimately show ?thesis by blast
  qed
  from run have "bulk_generate_images self w ps mdl od
      = (fst (bulk_generate_images self w ps mdl od), Inr ?rs)"
    by (metis prod.collapse)
  moreover have "length ?rs = length ps" by simp
  moreover have "\<forall>k<length ps. ?rs ! k =
       (case snd (generate_image (task_env w k) (ps ! k) mdl (Some (path_for d ''image'' k))) of
          Inl x \<Rightarrow> failed_result k x
        | Inr r \<Rightarrow> ok_result k (path_for d ''image'' k))"
    by (simp add: f_def)
  ultimately show ?thesis using other by blast
qed

lemma bulk_edit_images_isolated:
  assumes ord: "completion_order (length ps) (completion w)"
    and len: "length ps = length ips"
    and dir: "resolve_session_dir (main_env w) od = (evs0, Inr d)"
    and pool: "0 < max_workers self"
    and ok: "\<And>k. k < length ps \<Longrightarrow>
               catchable (snd (edit_image (task_env w k) (ps ! k) (ips ! k) default_model
                                 (Some (path_for d ''edited_image'' k))))"
  shows "\<exists>evs rs. bulk_edit_images self w ps ips mdl od = (evs, Inr rs)
           \<and> length rs = length ps
           \<and> (\<forall>k<length ps. rs ! k =
                 (case snd (edit_image (task_env w k) (ps ! k) (ips ! k) default_model
                              (Some (path_for d ''edited_image'' k))) of
                    Inl x \<Rightarrow> failed_result k x
                  | Inr r \<Rightarrow> ok_result k (path_for d ''edited_image'' k)))
           \<and> (\<forall>j e'.
                 (j < length ps \<longrightarrow>
                    catchable (snd (edit_image e' (ps ! j) (ips ! j) default_model
                                      (Some (path_for d ''edited_image'' j)))))
                 \<longrightarrow> (\<exists>evs' rs'.
                   bulk_edit_images self (w\<lparr>task_env := (task_env w)(j := e')\<rparr>) ps ips mdl od
                     = (evs', Inr rs')
                   \<and> (\<forall>k<length ps. k \<noteq> j \<longrightarrow> rs' ! k = rs ! k)))"
proof -
  define f where "f (v::world) k =
      (case snd (edit_image (task_env v k) (ps ! k) (ips ! k) default_model
                   (Some (path_for d ''edited_image'' k))) of
         Inl x \<Rightarrow> failed_result k x
       | Inr r \<Rightarrow> ok_result k (path_for d ''edited_image'' k))" for v k
  let ?rs = "map (f w) [0..<length ps]"
  have all: "edit_future w d ps ips k = Inr (f w k)" if "k < length ps" for k
    unfolding f_def by (rule edit_future_caught [OF that len ok [OF that]])
  have run: "snd (bulk_edit_images self w ps ips mdl od) = Inr ?rs"
    by (rule bulk_edit_images_runs [OF ord len dir pool all])
  have other: "\<exists>evs' rs'.
      bulk_edit_images self (w\<lparr>task_env := (task_env w)(j := e')\<rparr>) ps ips mdl od = (evs', Inr rs')
      \<and> (\<forall>k<length ps. k \<noteq> j \<longrightarrow> rs' ! k = ?rs ! k)"
    if e': "j < length ps \<longrightarrow>
        catchable (snd (edit_image e' (ps ! j) (ips ! j) default_model
                          (Some (path_for d ''edited_image'' j))))"
    for j e'
  proof -
    let ?w = "w\<lparr>task_env := (task_env w)(j := e')\<rparr>"
    have o: "completion_order (length ps) (completion ?w)"
      using ord by simp
    have r: "resolve_session_dir (main_env ?w) od = (evs0, Inr d)"
      using dir by simp
    have ok': "catchable (snd (edit_image (task_env ?w k) (ps ! k) (ips ! k) default_model
                                 (Some (path_for d ''edited_image'' k))))"
      if "k < length ps" for k
      using ok [OF that] e' that by (cases "k = j") simp_all
    have all': "edit_future ?w d ps ips k = Inr (f ?w k)" if "k < length ps" for k
      unfolding f_def by (rule edit_future_caught [OF that len ok' [OF that]])
    have "snd (bulk_edit_images self ?w ps ips mdl od) = Inr (map (f ?w) [0..<length ps])"
      by (rule bulk_edit_images_runs [OF o len r pool all'])
    then have "bulk_edit_images self ?w ps ips mdl od
        = (fst (bulk_edit_images self ?w ps ips mdl od), Inr (map (f ?w) [0..<length ps]))"
      by (metis prod.collapse)
    moreover have "\<forall>k<length ps. k \<noteq> j \<longrightarrow> map (f ?w) [0..<length ps] ! k = ?rs ! k"
      by (simp add: f_def)
    ultimately show ?thesis by blast
  qed
  from run have "bulk_edit_images self w ps ips mdl od
      = (fst (bulk_edit_images self w ps ips mdl od), Inr ?rs)"
    by (metis prod.collapse)
  moreover have "length ?rs = length ps" by simp
  moreover have "\<forall>k<length ps. ?rs ! k =
       (case snd (edit_image (task_env w k) (ps ! k) (ips ! k) default_model
                    (Some (path_for d ''edited_image'' k))) of
          Inl x \<Rightarrow> failed_result k x
        | Inr r \<Rightarrow> ok_result k (path_for d ''edited_image'' k))"
    by (simp add: f_def)
  ultimately show ?thesis using other by blast
qed

lemma bulk_generate_images_propagates:
  assumes ord: "completion_order (length ps) (completion w)"
    and dir: "resolve_session_dir (main_env w) od = (evs0, Inr d)"
    and pool: "0 < max_workers self"
    and k: "k < length ps"
      "\<not> catchable (snd (generate_image (task_env w k) (ps ! k) mdl
                            (Some (path_for d ''image'' k))))"
  shows "\<exists>evs x. bulk_generate_images self w ps mdl od = (evs, Inl x) \<and> \<not> is_exception x"
proof -
  have "isl (snd (bulk_generate_images self w ps mdl od))"
    by (rule bulk_generate_images_raises [OF ord dir pool k(1) generate_future_uncaught [OF k]])
  then obtain x where x: "snd (bulk_generate_images self w ps mdl od) = Inl x"
    by (cases "snd (bulk_generate_images self w ps mdl od)") simp_all
  then have "\<not> is_exception x"
    unfolding snd_bulk_generate_images [OF ord dir pool]
    by (auto split: sum.splits dest: collect_all_raised)
  with x show ?thesis by (metis prod.collapse)
qed

lemma bulk_edit_images_propagates:
  assumes ord: "completion_order (length ps) (completion w)"
    and len: "length ps = length ips"
    and dir: "resolve_session_dir (main_env w) od = (evs0, Inr d)"
    and pool: "0 < max_workers self"
    and k: "k < length ps"
      "\<not> catchable (snd (edit_image (task_env w k) (ps ! k) (ips ! k) default_model
                            (Some (path_for d ''edited_image'' k))))"
  shows "\<exists>evs x. bulk_edit_images self w ps ips mdl od = (evs, Inl x) \<and> \<not> is_exception x"
proof -
  have "isl (snd (bulk_edit_images self w ps ips mdl od))"
    by (rule bulk_edit_images_raises [OF ord len dir pool k(1) edit_future_uncaught [OF k(1) len k(2)]])
  then obtain x where x: "snd (bulk_edit_images self w ps ips mdl od) = Inl x"
    by (cases "snd (bulk_edit_images self w ps ips mdl od)") simp_all
  then have "\<not> is_exception x"
    unfolding snd_bulk_edit_images [OF ord len dir pool]
    by (auto split: sum.splits dest: collect_all_raised)
  with x show ?thesis by (metis prod.collapse)
qed

text \<open>
  C3, as the specification has it, fails for an exception that is not an \<open>Exception\<close>.
  Of two tasks the first succeeds and writes its file; the backend call of the second ends
  in \<open>SystemExit\<close>. Neither \<open>except Exception\<close> clause catches it: it leaves the worker,
  is raised again by \<open>future.result()\<close> and leaves \<open>bulk_generate_images\<close>, and the
  result of the first task is not returned.
\<close>

theorem uncaught_exception_counterexample:
  "bulk_generate_images (init_service 10) exiting_world [''a cat meme'', ''a dog meme'']
       ''gpt-image-1'' (Some (Path ''out''))
     = ([Mkdir ''out'', ThreadPool 10, Submit 0, Submit 1,
         ImagesGenerate ''gpt-image-1'' ''a cat meme'', Makedirs ''out'',
         OpenWrite ''out/image_000.png'', WriteBytes ''out/image_000.png'' ''hi'',
         Close ''out/image_000.png'', ImagesGenerate ''gpt-image-1'' ''a dog meme''],
        Inl (SystemExit ''1''))
   \<and> snd (worker_generate_image exiting_env
            (''a dog meme'', ''gpt-image-1'', 1, ''out/image_001.png''))
     = Inl (SystemExit ''1'')"
  by code_simp

text \<open>
  C3, amended. A worker turns every \<open>Exception\<close> of \<open>generate_image\<close> or \<open>edit_image\<close>
  into the failed result with the index of the task and the text of the exception; an
  exception that is not an \<open>Exception\<close> leaves it; the collecting loop does the same with
  what \<open>future.result()\<close> raises. Once the session directory is there
  and the executor has been created: when the work of every task ends in a value or an
  \<open>Exception\<close>, the bulk call returns one result per task, each determined by the world of
  its own task alone, and replacing the world of task \<open>j\<close> by another such world leaves
  every other result as it was; when the work of some task ends in an exception that is
  not an \<open>Exception\<close>, the bulk call raises such an exception and returns no results. The
  \<open>success\<close> entry of a manifest is true exactly when every result is a success.
\<close>

theorem task_failures_stay_local:
  assumes "completion_order (length ps) (completion w)"
    and "resolve_session_dir (main_env w) od = (evs0, Inr d)"
    and "0 < max_workers self"
  shows "snd (worker_generate_image e (p, m, i, out))
           = (case snd (generate_image e p m (Some out)) of
                Inl x \<Rightarrow> if is_exception x then Inr (failed_result i x) else Inl x
              | Inr r \<Rightarrow> Inr (ok_result i out))
       \<and> snd (worker_edit_image e (p, srcs, i, out))
           = (case snd (edit_image e p srcs default_model (Some out)) of
                Inl x \<Rightarrow> if is_exception x then Inr (failed_result i x) else Inl x
              | Inr r \<Rightarrow> Inr (ok_result i out))
       \<and> ((\<forall>k<length ps. catchable (snd (generate_image (task_env w k) (ps ! k) mdl
                                              (Some (path_for d ''image'' k))))) \<longrightarrow>
           (\<exists>evs rs. bulk_generate_images self w ps mdl od = (evs, Inr rs)
             \<and> length rs = length ps
             \<and> (\<forall>k<length ps. rs ! k =
                   (case snd (generate_image (task_env w k) (ps ! k) mdl
                                (Some (path_for d ''image'' k))) of
                      Inl x \<Rightarrow> failed_result k x
                    | Inr r \<Rightarrow> ok_result k (path_for d ''image'' k)))
             \<and> (\<forall>j e'.
                   (j < length ps \<longrightarrow>
                      catchable (snd (generate_image e' (ps ! j) mdl
                                        (Some (path_for d ''image'' j)))))
                   \<longrightarrow> (\<exists>evs' rs'.
                     bulk_generate_images self (w\<lparr>task_env := (task_env w)(j := e')\<rparr>) ps mdl od
                       = (evs', Inr rs')
                     \<and> (\<forall>k<length ps. k \<noteq> j \<longrightarrow> rs' ! k = rs ! k)))))
       \<and> ((\<exists>k<length ps. \<not> catchable (snd (generate_image (task_env w k) (ps ! k) mdl
                                                (Some (path_for d ''image'' k))))) \<longrightarrow>
           (\<exists>evs x. bulk_generate_images self w ps mdl od = (evs, Inl x) \<and> \<not> is_exception x))
       \<and> (length ps = length ips
            \<and> (\<forall>k<length ps. catchable (snd (edit_image (task_env w k) (ps ! k) (ips ! k)
                                                 default_model
                                                 (Some (path_for d ''edited_image'' k))))) \<longrightarrow>
           (\<exists>evs rs. bulk_edit_images self w ps ips mdl od = (evs, Inr rs)
             \<and> length rs = length ps
             \<and> (\<forall>k<length ps. rs ! k =
                   (case snd (edit_image (task_env w k) (ps ! k) (ips ! k) default_model
                                (Some (path_for d ''edited_image'' k))) of
                      Inl x \<Rightarrow> failed_result k x
                    | Inr r \<Rightarrow> ok_result k (path_for d ''edited_image'' k)))
             \<and> (\<forall>j e'.
                   (j < length ps \<longrightarrow>
                      catchable (snd (edit_image e' (ps ! j) (ips ! j) default_model
                                        (Some (path_for d ''edited_image'' j)))))
                   \<longrightarrow> (\<exists>evs' rs'.
                     bulk_edit_images self (w\<lparr>task_env := (task_env w)(j := e')\<rparr>) ps ips mdl od
                       = (evs', Inr rs')
                     \<and> (\<forall>k<length ps. k \<noteq> j \<longrightarrow> rs' ! k = rs ! k)))))
       \<and> (length ps = length ips
            \<and> (\<exists>k<length ps. \<not> catchable (snd (edit_image (task_env w k) (ps ! k) (ips ! k)
                                                   default_model
                                                   (Some (path_for d ''edited_image'' k))))) \<longrightarrow>
           (\<exists>evs x. bulk_edit_images self w ps ips mdl od = (evs, Inl x) \<and> \<not> is_exception x))
       \<and> (tools_bulk_generate_images w inp = (evsg, Inr (Batch mg)) \<longrightarrow>
            (m_success mg \<longleftrightarrow> (\<forall>r\<in>set (results mg). success r)))
       \<and> (tools_bulk_edit_images w einp = (evse, Inr (Batch me)) \<longrightarrow>
            (m_success me \<longleftrightarrow> (\<forall>r\<in>set (results me). success r)))
       \<and> collect i (Inl exc) = (if is_exception exc then Inr (failed_result i exc) else Inl exc)
       \<and> collect i (Inr res) = Inr res"
proof -
  have a: "snd (worker_generate_image e (p, m, i, out))
           = (case snd (generate_image e p m (Some out)) of
                Inl x \<Rightarrow> if is_exception x then Inr (failed_result i x) else Inl x
              | Inr r \<Rightarrow> Inr (ok_result i out))"
    by (rule snd_worker_generate_image)
  have b: "snd (worker_edit_image e (p, srcs, i, out))
           = (case snd (edit_image e p srcs default_model (Some out)) of
                Inl x \<Rightarrow> if is_exception x then Inr (failed_result i x) else Inl x
              | Inr r \<Rightarrow> Inr (ok_result i out))"
    by (rule snd_worker_edit_image)
  have c: "(\<forall>k<length ps. catchable (snd (generate_image (task_env w k) (ps ! k) mdl
                                              (Some (path_for d ''image'' k))))) \<longrightarrow>
           (\<exists>evs rs. bulk_generate_images self w ps mdl od = (evs, Inr rs)
             \<and> length rs = length ps
             \<and> (\<forall>k<length ps. rs ! k =
                   (case snd (generate_image (task_env w k) (ps ! k) mdl
                                (Some (path_for d ''image'' k))) of
                      Inl x \<Rightarrow> failed_result k x
                    | Inr r \<Rightarrow> ok_result k (path_for d ''image'' k)))
             \<and> (\<forall>j e'.
                   (j < length ps \<longrightarrow>
                      catchable (snd (generate_image e' (ps ! j) mdl
                                        (Some (path_for d ''image'' j)))))
                   \<longrightarrow> (\<exists>evs' rs'.
                     bulk_generate_images self (w\<lparr>task_env := (task_env w)(j := e')\<rparr>) ps mdl od
                       = (evs', Inr rs')
                     \<and> (\<forall>k<length ps. k \<noteq> j \<longrightarrow> rs' ! k = rs ! k))))"
    using bulk_generate_images_isolated [OF assms] by blast
  have d: "(\<exists>k<length ps. \<not> catchable (snd (generate_image (task_env w k) (ps ! k) mdl
                                                (Some (path_for d ''image'' k))))) \<longrightarrow>
           (\<exists>evs x. bulk_generate_images self w ps mdl od = (evs, Inl x) \<and> \<not> is_exception x)"
    using bulk_generate_images_propagates [OF assms] by blast
  have e: "length ps = length ips
            \<and> (\<forall>k<length ps. catchable (snd (edit_image (task_env w k) (ps ! k) (ips ! k)
                                                 default_model
                                                 (Some (path_for d ''edited_image'' k))))) \<longrightarrow>
           (\<exists>evs rs. bulk_edit_images self w ps ips mdl od = (evs, Inr rs)
             \<and> length rs = length ps
             \<and> (\<forall>k<length ps. rs ! k =
                   (case snd (edit_image (task_env w k) (ps ! k) (ips ! k) default_model
                                (Some (path_for d ''edited_image'' k))) of
                      Inl x \<Rightarrow> failed_result k x
                    | Inr r \<Rightarrow> ok_result k (path_for d ''edited_image'' k)))
             \<and> (\<forall>j e'.
                   (j < length ps \<longrightarrow>
                      catchable (snd (edit_image e' (ps ! j) (ips ! j) default_model
                                        (Some (path_for d ''edited_image'' j)))))
                   \<longrightarrow> (\<exists>evs' rs'.
                     bulk_edit_images self (w\<lparr>task_env := (task_env w)(j := e')\<rparr>) ps ips mdl od
                       = (evs', Inr rs')
                     \<and> (\<forall>k<length ps. k \<noteq> j \<longrightarrow> rs' ! k = rs ! k))))"
    using bulk_edit_images_isolated [OF assms(1) _ assms(2,3)] by blast
  have f: "length ps = length ips
            \<and> (\<exists>k<length ps. \<not> catchable (snd (edit_image (task_env w k) (ps ! k) (ips ! k)
                                                   default_model
                                                   (Some (path_for d ''edited_image'' k))))) \<longrightarrow>
           (\<exists>evs x. bulk_edit_images self w ps ips mdl od = (evs, Inl x) \<and> \<not> is_exception x)"
    using bulk_edit_images_propagates [OF assms(1) _ assms(2,3)] by blast
  have g: "tools_bulk_generate_images w inp = (evsg, Inr (Batch mg)) \<longrightarrow>
            (m_success mg \<longleftrightarrow> (\<forall>r\<in>set (results mg). success r))"
    by (simp add: tools_bulk_generate_images_Batch(3) list_all_iff)
  have h: "tools_bulk_edit_images w einp = (evse, Inr (Batch me)) \<longrightarrow>
            (m_success me \<longleftrightarrow> (\<forall>r\<in>set (results me). success r))"
    by (simp add: tools_bulk_edit_images_Batch(3) list_all_iff)
  have i: "collect i (Inl exc) = (if is_exception exc then Inr (failed_result i exc) else Inl exc)"
    "collect i (Inr res) = Inr res"
    by (simp_all add: failed_result_def)
  from a b c d e f g h i show ?thesis
    by (intro conjI)
qed

theorem task_failures_stay_local_witness:
  "completion_order (length [''a cat meme'', ''a dog meme'']) (completion two_task_world)
   \<and> resolve_session_dir (main_env two_task_world) None
       = ([Mkdir ''generated_images/session_20240101_120000'',
           Mkdir ''generated_images/session_20240101_120000''],
          Inr (Path ''generated_images/session_20240101_120000''))
   \<and> 0 < max_workers (init_service 10)
   \<and> catchable (snd (generate_image (task_env two_task_world 0) ''a cat meme'' ''gpt-image-1''
                        (Some (path_for (Path ''generated_images/session_20240101_120000'')
                                 ''image'' 0))))
   \<and> catchable (snd (generate_image (task_env two_task_world 1) ''a dog meme'' ''gpt-image-1''
                        (Some (path_for (Path ''generated_images/session_20240101_120000'')
                                 ''image'' 1))))
   \<and> (\<exists>evs. bulk_generate_images (init_service 10) two_task_world
                [''a cat meme'', ''a dog meme''] ''gpt-image-1'' None
        = (evs, Inr [ok_result 0 ''generated_images/session_20240101_120000/image_000.png'',
                     failed_result 1 (APIError ''rate limited'')]))
   \<and> (\<exists>evs m. tools_bulk_generate_images two_task_world
          \<lparr> prompts = [''a cat meme'', ''a dog meme''], output_dir = None,
            model = ''gpt-image-1'' \<rparr> = (evs, Inr (Batch m))
        \<and> output_paths m = [Some ''generated_images/session_20240101_120000/image_000.png'']
        \<and> \<not> m_success m \<and> \<not> (\<forall>r\<in>set (results m). success r))
   \<and> length [''a cat meme'', ''a dog meme''] = length [[''cat.png''], [''dog.png'']]
   \<and> catchable (snd (edit_image (task_env two_task_world 0) ''a cat meme'' [''cat.png'']
                        default_model
                        (Some (path_for (Path ''generated_images/session_20240101_120000'')
                                 ''edited_image'' 0))))
   \<and> catchable (snd (edit_image (task_env two_task_world 1) ''a dog meme'' [''dog.png'']
                        default_model
                        (Some (path_for (Path ''generated_images/session_20240101_120000'')
                                 ''edited_image'' 1))))
   \<and> (\<exists>evs rs. bulk_edit_images (init_service 10) two_task_world
                   [''a cat meme'', ''a dog meme''] [[''cat.png''], [''dog.png'']]
                   ''gpt-image-1'' None = (evs, Inr rs)
        \<and> length rs = length [''a cat meme'', ''a dog meme''])
   \<and> completion_order (length [''a cat meme'', ''a dog meme'']) (completion exiting_world)
   \<and> \<not> catchable (snd (generate_image (task_env exiting_world 1) ''a dog meme'' ''gpt-image-1''
                          (Some (path_for (Path ''generated_images/session_20240101_120000'')
                                   ''image'' 1))))
   \<and> (\<exists>evs x. bulk_generate_images (init_service 10) exiting_world
                  [''a cat meme'', ''a dog meme''] ''gpt-image-1'' None = (evs, Inl x)
        \<and> \<not> is_exception x)"
proof -
  let ?ps = "[''a cat meme'', ''a dog meme'']"
  let ?ips = "[[''cat.png''], [''dog.png'']]"
  let ?d = "Path ''generated_images/session_20240101_120000''"
  let ?inp = "\<lparr> prompts = ?ps, output_dir = None, model = ''gpt-image-1'' \<rparr>"
  let ?m = "\<lparr> m_success = False,
               results = [ok_result 0 ''generated_images/session_20240101_120000/image_000.png'',
                          failed_result 1 (APIError ''rate limited'')],
               output_paths = [Some ''generated_images/session_20240101_120000/image_000.png''],
               session_dir = Some ''generated_images/session_20240101_120000'',
               message = ''Generated 1 images out of 2 requested'' \<rparr>"
  have c: "completion_order (length ?ps) (completion two_task_world)"
    by code_simp
  have r: "resolve_session_dir (main_env two_task_world) None
       = ([Mkdir ''generated_images/session_20240101_120000'',
           Mkdir ''generated_images/session_20240101_120000''], Inr ?d)"
    by code_simp
  have p: "0 < max_workers (init_service 10)"
    by (simp add: init_service_def)
  have k0: "catchable (snd (generate_image (task_env two_task_world 0) (?ps ! 0) ''gpt-image-1''
                              (Some (path_for ?d ''image'' 0))))"
    by code_simp
  have k1: "catchable (snd (generate_image (task_env two_task_world 1) (?ps ! 1) ''gpt-image-1''
                              (Some (path_for ?d ''image'' 1))))"
    by code_simp
  have all: "\<forall>k<length ?ps. catchable (snd (generate_image (task_env two_task_world k) (?ps ! k)
                                               ''gpt-image-1'' (Some (path_for ?d ''image'' k))))"
  proof (intro allI impI)
    fix k :: nat
    assume "k < length ?ps"
    then have "k = 0 \<or> k = 1" by auto
    with k0 k1 show "catchable (snd (generate_image (task_env two_task_world k) (?ps ! k)
                                      ''gpt-image-1'' (Some (path_for ?d ''image'' k))))"
      by blast
  qed
  have "snd (tools_bulk_generate_images two_task_world ?inp) = Inr (Batch ?m)"
    by code_simp
  then obtain evsg where t: "tools_bulk_generate_images two_task_world ?inp = (evsg, Inr (Batch ?m))"
    by (metis prod.collapse)
  note inst = task_failures_stay_local [OF c r p, where mdl = "''gpt-image-1''" and inp = ?inp
      and evsg = evsg and mg = ?m and ips = ?ips]
  from inst [THEN conjunct2, THEN conjunct2, THEN conjunct1, THEN mp, OF all]
  obtain evs rs where run:
    "bulk_generate_images (init_service 10) two_task_world ?ps ''gpt-image-1'' None = (evs, Inr rs)"
    and len: "length rs = length ?ps"
    and each: "\<forall>k<length ?ps. rs ! k =
        (case snd (generate_image (task_env two_task_world k) (?ps ! k) ''gpt-image-1''
                     (Some (path_for ?d ''image'' k))) of
           Inl x \<Rightarrow> failed_result k x
         | Inr r \<Rightarrow> ok_result k (path_for ?d ''image'' k))"
    by blast
  have v0: "(case snd (generate_image (task_env two_task_world 0) (?ps ! 0) ''gpt-image-1''
                     (Some (path_for ?d ''image'' 0))) of
           Inl x \<Rightarrow> failed_result 0 x
         | Inr r \<Rightarrow> ok_result 0 (path_for ?d ''image'' 0))
      = ok_result 0 ''generated_images/session_20240101_120000/image_000.png''"
    by code_simp
  have v1: "(case snd (generate_image (task_env two_task_world 1) (?ps ! 1) ''gpt-image-1''
                     (Some (path_for ?d ''image'' 1))) of
           Inl x \<Rightarrow> failed_result 1 x
         | Inr r \<Rightarrow> ok_result 1 (path_for ?d ''image'' 1))
      = failed_result 1 (APIError ''rate limited'')"
    by code_simp
  have l: "(0::nat) < length ?ps" "(1::nat) < length ?ps"
    by simp_all
  have "rs ! 0 = ok_result 0 ''generated_images/session_20240101_120000/image_000.png''"
    using each [rule_format, OF l(1)] v0 by (rule trans)
  moreover have "rs ! 1 = failed_result 1 (APIError ''rate limited'')"
    using each [rule_format, OF l(2)] v1 by (rule trans)
  ultimately have rs: "rs = [ok_result 0 ''generated_images/session_20240101_120000/image_000.png'',
                           failed_result 1 (APIError ''rate limited'')]"
    using len by (intro nth_equalityI) (auto simp: less_Suc_eq)
  from inst [THEN conjunct2, THEN conjunct2, THEN conjunct2, THEN conjunct2, THEN conjunct2,
      THEN conjunct2, THEN conjunct1] t
  have "m_success ?m \<longleftrightarrow> (\<forall>r\<in>set (results ?m). success r)"
    by blast
  then have f: "\<not> (\<forall>r\<in>set (results ?m). success r)"
    by (simp only: manifest.simps simp_thms)
  have n: "length ?ps = length ?ips"
    by simp
  have e0: "catchable (snd (edit_image (task_env two_task_world 0) (?ps ! 0) (?ips ! 0)
                              default_model (Some (path_for ?d ''edited_image'' 0))))"
    by code_simp
  have e1: "catchable (snd (edit_image (task_env two_task_world 1) (?ps ! 1) (?ips ! 1)
                              default_model (Some (path_for ?d ''edited_image'' 1))))"
    by code_simp
  have alle: "\<forall>k<length ?ps. catchable (snd (edit_image (task_env two_task_world k) (?ps ! k)
                                                (?ips ! k) default_model
                                                (Some (path_for ?d ''edited_image'' k))))"
  proof (intro allI impI)
    fix k :: nat
    assume "k < length ?ps"
    then have "k = 0 \<or> k = 1" by auto
    with e0 e1 show "catchable (snd (edit_image (task_env two_task_world k) (?ps ! k) (?ips ! k)
                                       default_model (Some (path_for ?d ''edited_image'' k))))"
      by blast
  qed
  from inst [THEN conjunct2, THEN conjunct2, THEN conjunct2, THEN conjunct2, THEN conjunct1,
      THEN mp, OF conjI, OF n alle]
  have ed: "\<exists>evs rs. bulk_edit_images (init_service 10) two_task_world ?ps ?ips ''gpt-image-1'' None
                       = (evs, Inr rs) \<and> length rs = length ?ps"
    by blast
  have e0': "catchable (snd (edit_image (task_env two_task_world 0) ''a cat meme'' [''cat.png'']
                               default_model (Some (path_for ?d ''edited_image'' 0))))"
    and e1': "catchable (snd (edit_image (task_env two_task_world 1) ''a dog meme'' [''dog.png'']
                               default_model (Some (path_for ?d ''edited_image'' 1))))"
    using e0 e1 by simp_all
  have c': "completion_order (length ?ps) (completion exiting_world)"
    by code_simp
  have r': "resolve_session_dir (main_env exiting_world) None
       = ([Mkdir ''generated_images/session_20240101_120000'',
           Mkdir ''generated_images/session_20240101_120000''], Inr ?d)"
    by code_simp
  have u: "\<not> catchable (snd (generate_image (task_env exiting_world 1) (?ps ! 1) ''gpt-image-1''
                               (Some (path_for ?d ''image'' 1))))"
    by code_simp
  with l(2) have ex: "\<exists>k<length ?ps. \<not> catchable (snd (generate_image (task_env exiting_world k)
                               (?ps ! k) ''gpt-image-1'' (Some (path_for ?d ''image'' k))))"
    by blast
  from task_failures_stay_local [OF c' r' p, where mdl = "''gpt-image-1''", THEN conjunct2,
      THEN conjunct2, THEN conjunct2, THEN conjunct1, THEN mp, OF ex]
  have x: "\<exists>evs x. bulk_generate_images (init_service 10) exiting_world ?ps ''gpt-image-1'' None
                     = (evs, Inl x) \<and> \<not> is_exception x" .
  have k0': "catchable (snd (generate_image (task_env two_task_world 0) ''a cat meme''
                               ''gpt-image-1'' (Some (path_for ?d ''image'' 0))))"
    and k1': "catchable (snd (generate_image (task_env two_task_world 1) ''a dog meme''
                               ''gpt-image-1'' (Some (path_for ?d ''image'' 1))))"
    and u': "\<not> catchable (snd (generate_image (task_env exiting_world 1) ''a dog meme''
                               ''gpt-image-1'' (Some (path_for ?d ''image'' 1))))"
    using k0 k1 u by simp_all
  have g: "\<exists>evs. bulk_generate_images (init_service 10) two_task_world ?ps ''gpt-image-1'' None
        = (evs, Inr [ok_result 0 ''generated_images/session_20240101_120000/image_000.png'',
                     failed_result 1 (APIError ''rate limited'')])"
    using run rs by blast
  have h: "\<exists>evs m. tools_bulk_generate_images two_task_world ?inp = (evs, Inr (Batch m))
        \<and> output_paths m = [Some ''generated_images/session_20240101_120000/image_000.png'']
        \<and> \<not> m_success m \<and> \<not> (\<forall>r\<in>set (results m). success r)"
    using t f by (intro exI [of _ evsg] exI [of _ ?m]) (simp_all only: manifest.simps simp_thms)
  from c r p k0' k1' g h n e0' e1' ed c' u' x show ?thesis
    by (intro conjI)
qed

section \<open>The reported session directory\<close>











lemma hd_map_upt: "0 < n \<Longrightarrow> hd (map f [0..<n]) = f 0"
  by (simp add: hd_map upt_conv_Cons)






section \<open>The worker limit\<close>

lemma pool_step_bound:
  assumes "pool_step cap s a = Some s'"
    and "int (length (running s)) \<le> max 0 cap"
  shows "int (length (running s')) \<le> max 0 cap"
proof (cases a)
  case Start
  with assms show ?thesis
    by (auto split: list.splits if_splits)
next
  case (Finish t)
  with assms show ?thesis
    by (auto simp: length_remove1 split: if_splits)
qed

lemma pool_step_tasks:
  assumes "pool_step cap s a = Some s'"
  shows "mset (queued s') + mset (running s') + mset (finished s')
           = mset (queued s) + mset (running s) + mset (finished s)"
proof (cases a)
  case Start
  with assms show ?thesis
    by (auto split: list.splits if_splits)
next
  case (Finish t)
  with assms show ?thesis
    by (auto split: if_splits)
qed

lemma pool_run_bound:
  "pool_run cap s as = Some s' \<Longrightarrow> int (length (running s)) \<le> max 0 cap \<Longrightarrow>
   int (length (running s')) \<le> max 0 cap"
proof (induction as arbitrary: s)
  case Nil
  then show ?case by simp
next
  case (Cons a as)
  then show ?case
    by (auto split: option.splits dest: pool_step_bound)
qed

lemma pool_run_tasks:
  "pool_run cap s as = Some s' \<Longrightarrow>
   mset (queued s') + mset (running s') + mset (finished s')
     = mset (queued s) + mset (running s) + mset (finished s)"
proof (induction as arbitrary: s)
  case Nil
  then show ?case by simp
next
  case (Cons a as)
  then show ?case
    by (auto split: option.splits dest: pool_step_tasks)
qed

lemma completion_order_mset: "mset order = mset [0..<n] \<Longrightarrow> completion_order n order"
  unfolding completion_order_def
  by (metis sorted_sort sort_key_id_if_sorted sorted_upt properties_for_sort mset_sort)

lemma save_image_no_pool: "ThreadPool c \<notin> set (fst (save_image e p b))"
  by (simp add: save_image_def split: option.splits)

lemma decode_and_save_no_pool: "ThreadPool c \<notin> set (fst (decode_and_save e a out))"
proof (cases "decode_and_save e a out")
  case (Pair evs r)
  have "evs = [] \<or> (\<exists>p b. evs = fst (save_image e p b))"
    using Pair by (auto simp: decode_and_save_def split: sum.splits prod.splits option.splits
        if_splits) (metis fst_conv)+
  then show ?thesis
    using Pair save_image_no_pool by auto
qed

lemma generate_image_no_pool: "ThreadPool c \<notin> set (fst (generate_image e p m out))"
  using decode_and_save_no_pool [of c e "images_generate e m p" out]
  by (cases "decode_and_save e (images_generate e m p) out") (auto simp: generate_image_def)

lemma edit_image_no_pool: "ThreadPool c \<notin> set (fst (edit_image e p ips m out))"
proof (cases "open_all e ips")
  case (Pair images r)
  show ?thesis
    using decode_and_save_no_pool [of c e "images_edit e m images p" out] Pair
    by (auto simp: edit_image_def split: prod.splits option.splits)
qed

lemma worker_generate_image_no_pool: "ThreadPool c \<notin> set (fst (worker_generate_image e t))"
proof (cases t)
  case (fields p m k out)
  then show ?thesis
    using generate_image_no_pool [of c e p m "Some out"]
    by (auto split: prod.splits sum.splits if_splits)
qed

lemma worker_edit_image_no_pool: "ThreadPool c \<notin> set (fst (worker_edit_image e t))"
proof (cases t)
  case (fields p ips k out)
  then show ?thesis
    using edit_image_no_pool [of c e p ips default_model "Some out"]
    by (auto split: prod.splits sum.splits if_splits)
qed

lemma resolve_session_dir_no_pool: "ThreadPool c \<notin> set (fst (resolve_session_dir e od))"
  by (auto simp: resolve_session_dir_def generate_session_directory_def Let_def
        split: option.splits sum.splits prod.splits)

lemma fst_case_sum: "fst (case x of Inl a \<Rightarrow> (l, f a) | Inr b \<Rightarrow> (l, g b)) = l"
  by (cases x) simp_all

lemma generate_tasks_submitted:
  "map (\<lambda>task. Submit (fst (snd (snd task)))) (generate_tasks d m ps)
     = map Submit [0..<length ps]"
  by (rule nth_equalityI) (simp_all add: length_generate_tasks nth_generate_tasks)

lemma edit_tasks_submitted:
  "length ps = length ips \<Longrightarrow>
   map (\<lambda>task. Submit (fst (snd (snd task)))) (edit_tasks d ps ips)
     = map Submit [0..<length ps]"
  by (rule nth_equalityI) (simp_all add: length_edit_tasks nth_edit_tasks)

lemma concat_worker_events:
  "concat (map ((\<lambda>(task_index, evs', r). evs') \<circ> (\<lambda>k. (f k, g k))) order)
     = concat (map (\<lambda>k. fst (g k)) order)"
  by (induction order) (simp_all add: split_def)

lemma bulk_generate_images_log:
  assumes r0: "resolve_session_dir (main_env w) od = (evs0, Inr d)"
    and pos: "0 < max_workers self"
  shows "\<exists>evs1. fst (bulk_generate_images self w ps mdl od)
                   = evs0 @ ThreadPool (max_workers self) # map Submit [0..<length ps] @ evs1
               \<and> (\<forall>c. ThreadPool c \<notin> set evs1)"
proof -
  let ?evs = "concat (map (\<lambda>k. fst (worker_generate_image (task_env w k)
                                       (generate_tasks d mdl ps ! k))) (completion w))"
  have "fst (bulk_generate_images self w ps mdl od)
          = evs0 @ ThreadPool (max_workers self) # map Submit [0..<length ps] @ ?evs"
    using r0 pos
    by (simp add: bulk_generate_images_def Let_def fst_case_sum generate_tasks_submitted
        concat_worker_events del: worker_generate_image.simps)
  moreover have "\<forall>c. ThreadPool c \<notin> set ?evs"
    by (auto simp: worker_generate_image_no_pool simp del: worker_generate_image.simps)
  ultimately show ?thesis
    by blast
qed

lemma bulk_edit_images_log:
  assumes r0: "resolve_session_dir (main_env w) od = (evs0, Inr d)"
    and pos: "0 < max_workers self"
    and len: "length ps = length ips"
  shows "\<exists>evs1. fst (bulk_edit_images self w ps ips mdl od)
                   = evs0 @ ThreadPool (max_workers self) # map Submit [0..<length ps] @ evs1
               \<and> (\<forall>c. ThreadPool c \<notin> set evs1)"
proof -
  let ?evs = "concat (map (\<lambda>k. fst (worker_edit_image (task_env w k)
                                       (edit_tasks d ps ips ! k))) (completion w))"
  have "fst (bulk_edit_images self w ps ips mdl od)
          = evs0 @ ThreadPool (max_workers self) # map Submit [0..<length ps] @ ?evs"
    using r0 pos len
    by (simp add: bulk_edit_images_def Let_def fst_case_sum edit_tasks_submitted
        concat_worker_events del: worker_edit_image.simps)
  moreover have "\<forall>c. ThreadPool c \<notin> set ?evs"
    by (auto simp: worker_edit_image_no_pool simp del: worker_edit_image.simps)
  ultimately show ?thesis
    by blast
qed

lemma bulk_generate_images_pool:
  assumes "ThreadPool c \<in> set (fst (bulk_generate_images self w ps mdl od))"
  shows "c = max_workers self \<and> 0 < c"
proof -
  obtain evs0 r0 where r0: "resolve_session_dir (main_env w) od = (evs0, r0)"
    by (cases "resolve_session_dir (main_env w) od")
  have no: "ThreadPool c \<notin> set evs0"
    using resolve_session_dir_no_pool [of c "main_env w" od] r0 by simp
  show ?thesis
  proof (cases r0)
    case (Inl x)
    with r0 assms no show ?thesis
      by (simp add: bulk_generate_images_def)
  next
    case (Inr d)
    show ?thesis
    proof (cases "0 < max_workers self")
      case True
      from bulk_generate_images_log [OF r0 [unfolded Inr] True, of ps mdl] assms no
      show ?thesis using True by auto
    next
      case False
      with r0 Inr assms no show ?thesis
        by (simp add: bulk_generate_images_def Let_def)
    qed
  qed
qed

lemma bulk_edit_images_pool:
  assumes "ThreadPool c \<in> set (fst (bulk_edit_images self w ps ips mdl od))"
  shows "c = max_workers self \<and> 0 < c"
proof -
  obtain evs0 r0 where r0: "resolve_session_dir (main_env w) od = (evs0, r0)"
    by (cases "resolve_session_dir (main_env w) od")
  have no: "ThreadPool c \<notin> set evs0"
    using resolve_session_dir_no_pool [of c "main_env w" od] r0 by simp
  have len: "length ps = length ips"
    using assms by (auto simp: bulk_edit_images_def split: if_splits)
  show ?thesis
  proof (cases r0)
    case (Inl x)
    with r0 assms no len show ?thesis
      by (simp add: bulk_edit_images_def)
  next
    case (Inr d)
    show ?thesis
    proof (cases "0 < max_workers self")
      case True
      from bulk_edit_images_log [OF r0 [unfolded Inr] True len, of mdl] assms no
      show ?thesis using True by auto
    next
      case False
      with r0 Inr assms no len show ?thesis
        by (simp add: bulk_edit_images_def Let_def)
    qed
  qed
qed

text \<open>
  C7. The service keeps \<open>min(w, 10)\<close> as its worker limit, and a bulk call creates its
  executor with exactly that limit: once the session directory exists and the limit is
  positive, the call creates one executor, with \<open>max_workers = min(w, 10)\<close>, and submits
  the tasks \<open>0, ..., N-1\<close> to it in order; no bulk call creates an executor with another
  limit, or with a limit above 10. In every state that an executor with the limit of a
  bulk call reaches from the submission of the \<open>N\<close> tasks of the batch, at most 10 tasks,
  and at most \<open>min(w, 10)\<close>, are running; every task is waiting, running or finished; a
  waiting task is not started while the limit is reached; and when nothing is waiting or
  running, the finished tasks are a completion order of the batch.
\<close>

theorem bulk_pool_never_exceeds_ten:
  "max_workers (init_service mw) = min mw 10
   \<and> (resolve_session_dir (main_env w) od = (pre, Inr d) \<and> 0 < mw \<longrightarrow>
        (\<exists>post. fst (bulk_generate_images (init_service mw) w ps mdl od)
                   = pre @ ThreadPool (min mw 10) # map Submit [0..<length ps] @ post
               \<and> (\<forall>c. ThreadPool c \<notin> set pre \<union> set post)))
   \<and> (resolve_session_dir (main_env w) od = (pre, Inr d) \<and> 0 < mw
        \<and> length ps = length ips \<longrightarrow>
        (\<exists>post. fst (bulk_edit_images (init_service mw) w ps ips mdl od)
                   = pre @ ThreadPool (min mw 10) # map Submit [0..<length ps] @ post
               \<and> (\<forall>c. ThreadPool c \<notin> set pre \<union> set post)))
   \<and> (ThreadPool c \<in> set (fst (bulk_generate_images (init_service mw) w ps mdl od))
        \<or> ThreadPool c \<in> set (fst (bulk_edit_images (init_service mw) w ps ips mdl od)) \<longrightarrow>
        c = min mw 10 \<and> 0 < c \<and> c \<le> 10
        \<and> (pool_run c (submitted (length ps)) acts = Some s \<longrightarrow>
              length (running s) \<le> 10
            \<and> int (length (running s)) \<le> min mw 10
            \<and> mset (queued s) + mset (running s) + mset (finished s) = mset [0..<length ps]
            \<and> (min mw 10 \<le> int (length (running s)) \<longrightarrow> pool_step c s Start = None)
            \<and> (queued s = [] \<and> running s = [] \<longrightarrow>
                 completion_order (length ps) (finished s))))"
proof (intro conjI impI; (elim conjE)?)
  show cap: "max_workers (init_service mw) = min mw 10"
    by (simp add: init_service_def)
  {
    assume r0: "resolve_session_dir (main_env w) od = (pre, Inr d)" and pos: "0 < mw"
    from pos have p: "0 < max_workers (init_service mw)"
      by (simp add: cap)
    have no: "\<forall>c. ThreadPool c \<notin> set pre"
      using resolve_session_dir_no_pool [of _ "main_env w" od] r0 by simp
    from bulk_generate_images_log [OF r0 p, of ps mdl] no
    show "\<exists>post. fst (bulk_generate_images (init_service mw) w ps mdl od)
                   = pre @ ThreadPool (min mw 10) # map Submit [0..<length ps] @ post
               \<and> (\<forall>c. ThreadPool c \<notin> set pre \<union> set post)"
      unfolding cap by auto
    {
      assume len: "length ps = length ips"
      from bulk_edit_images_log [OF r0 p len, of mdl] no
      show "\<exists>post. fst (bulk_edit_images (init_service mw) w ps ips mdl od)
                   = pre @ ThreadPool (min mw 10) # map Submit [0..<length ps] @ post
               \<and> (\<forall>c. ThreadPool c \<notin> set pre \<union> set post)"
        unfolding cap by auto
    }
  }
  assume "ThreadPool c \<in> set (fst (bulk_generate_images (init_service mw) w ps mdl od))
        \<or> ThreadPool c \<in> set (fst (bulk_edit_images (init_service mw) w ps ips mdl od))"
  then have "c = max_workers (init_service mw) \<and> 0 < c"
    using bulk_generate_images_pool bulk_edit_images_pool by blast
  then have c: "c = min mw 10" and c0: "0 < c"
    unfolding cap by blast+
  then show "c = min mw 10" and "0 < c" and "c \<le> 10"
    by simp_all
  assume run: "pool_run c (submitted (length ps)) acts = Some s"
  have "int (length (running (submitted (length ps)))) \<le> max 0 c"
    by (simp add: submitted_def)
  with run have "int (length (running s)) \<le> max 0 c"
    by (rule pool_run_bound)
  with c c0 show b: "int (length (running s)) \<le> min mw 10"
    by simp
  then show "length (running s) \<le> 10"
    by simp
  from pool_run_tasks [OF run]
  show all: "mset (queued s) + mset (running s) + mset (finished s) = mset [0..<length ps]"
    by (simp add: submitted_def)
  {
    assume "min mw 10 \<le> int (length (running s))"
    then show "pool_step c s Start = None"
      unfolding c by (auto split: list.splits)
  }
  {
    assume "queued s = []" "running s = []"
    with all have "mset (finished s) = mset [0..<length ps]"
      by simp
    then show "completion_order (length ps) (finished s)"
      by (rule completion_order_mset)
  }
qed

theorem bulk_pool_never_exceeds_ten_witness:
  "resolve_session_dir (main_env busy_world) (Some (Path ''out''))
     = ([Mkdir ''out''], Inr (Path ''out''))
   \<and> (0::int) < 50
   \<and> (\<exists>post. fst (bulk_generate_images (init_service 50) busy_world (replicate 12 ''a meme'')
                      ''gpt-image-1'' (Some (Path ''out'')))
                = [Mkdir ''out''] @ ThreadPool (min 50 10)
                    # map Submit [0..<length (replicate 12 ''a meme'')] @ post)
   \<and> length (replicate 12 ''a meme'') = length (replicate 12 [''cat.png''])
   \<and> (\<exists>post. fst (bulk_edit_images (init_service 50) busy_world (replicate 12 ''a meme'')
                      (replicate 12 [''cat.png'']) ''gpt-image-1'' (Some (Path ''out'')))
                = [Mkdir ''out''] @ ThreadPool (min 50 10)
                    # map Submit [0..<length (replicate 12 ''a meme'')] @ post)
   \<and> ThreadPool 10 \<in> set (fst (bulk_generate_images (init_service 50) busy_world
                                   (replicate 12 ''a meme'') ''gpt-image-1''
                                   (Some (Path ''out''))))
   \<and> pool_run 10 (submitted (length (replicate 12 ''a meme''))) (replicate 10 Start)
       = Some \<lparr> queued = [10, 11], running = [0, 1, 2, 3, 4, 5, 6, 7, 8, 9], finished = [] \<rparr>
   \<and> length (running \<lparr> queued = [10, 11], running = [0, 1, 2, 3, 4, 5, 6, 7, 8, 9],
                        finished = [] \<rparr>) \<le> 10
   \<and> min 50 10 \<le> int (length (running \<lparr> queued = [10, 11],
                                           running = [0, 1, 2, 3, 4, 5, 6, 7, 8, 9],
                                           finished = [] \<rparr>))
   \<and> pool_step 10 \<lparr> queued = [10, 11], running = [0, 1, 2, 3, 4, 5, 6, 7, 8, 9],
                      finished = [] \<rparr> Start = None
   \<and> pool_run 10 (submitted (length (replicate 12 ''a meme'')))
        (replicate 10 Start @ map Finish [0, 1, 2, 3, 4, 5, 6, 7, 8, 9]
           @ [Start, Start, Finish 10, Finish 11])
       = Some \<lparr> queued = [], running = [], finished = completion busy_world \<rparr>
   \<and> completion_order (length (replicate 12 ''a meme'')) (completion busy_world)"
proof -
  let ?ps = "replicate 12 ''a meme''"
  let ?od = "Some (Path ''out'')"
  let ?ips = "replicate 12 [''cat.png'']"
  let ?s = "\<lparr> queued = [10, 11], running = [0, 1, 2, 3, 4, 5, 6, 7, 8, 9], finished = [] \<rparr>"
  let ?t = "\<lparr> queued = [], running = [], finished = completion busy_world \<rparr>"
  let ?acts = "replicate 10 Start @ map Finish [0, 1, 2, 3, 4, 5, 6, 7, 8, 9]
                 @ [Start, Start, Finish 10, Finish 11]"
  have r: "resolve_session_dir (main_env busy_world) ?od = ([Mkdir ''out''], Inr (Path ''out''))"
    by code_simp
  have p: "(0::int) < 50"
    by simp
  have m: "ThreadPool 10 \<in> set (fst (bulk_generate_images (init_service 50) busy_world ?ps
                                       ''gpt-image-1'' ?od))"
    by code_simp
  have a: "pool_run 10 (submitted (length ?ps)) (replicate 10 Start) = Some ?s"
    by code_simp
  have b: "pool_run 10 (submitted (length ?ps)) ?acts = Some ?t"
    by code_simp
  have f: "min 50 10 \<le> int (length (running ?s))" "queued ?t = []" "running ?t = []"
    by simp_all
  note i = bulk_pool_never_exceeds_ten [where mw = 50 and w = busy_world and od = ?od
      and pre = "[Mkdir ''out'']" and d = "Path ''out''" and ps = ?ps
      and mdl = "''gpt-image-1''" and c = 10 and acts = "replicate 10 Start" and s = ?s
      and ips = ?ips]
  from i [THEN conjunct2, THEN conjunct1] r p
  have l: "\<exists>post. fst (bulk_generate_images (init_service 50) busy_world ?ps ''gpt-image-1'' ?od)
                = [Mkdir ''out''] @ ThreadPool (min 50 10) # map Submit [0..<length ?ps] @ post"
    by blast
  have n: "length ?ps = length ?ips"
    by simp
  from i [THEN conjunct2, THEN conjunct2, THEN conjunct1] r p n
  have l': "\<exists>post. fst (bulk_edit_images (init_service 50) busy_world ?ps ?ips ''gpt-image-1'' ?od)
                = [Mkdir ''out''] @ ThreadPool (min 50 10) # map Submit [0..<length ?ps] @ post"
    by blast
  from i [THEN conjunct2, THEN conjunct2, THEN conjunct2] m a f(1)
  have x: "length (running ?s) \<le> 10" "pool_step 10 ?s Start = None"
    by blast+
  from bulk_pool_never_exceeds_ten [where mw = 50 and w = busy_world and od = ?od
      and ps = ?ps and mdl = "''gpt-image-1''" and c = 10 and acts = ?acts and s = ?t,
      THEN conjunct2, THEN conjunct2, THEN conjunct2] m b f(2,3)
  have "completion_order (length ?ps) (finished ?t)"
    by blast
  then have y: "completion_order (length ?ps) (completion busy_world)"
    by (simp only: pool.simps)
  from r p l n l' m a x(1) f(1) x(2) b y show ?thesis
    by (intro conjI)
qed

end
